theory Spec2Isabelle
  imports Main
begin

section \<open>Text and character classes\<close>

text \<open>
  The engine works on Python \<open>str\<close> values: sequences of code points. A text is modelled
  as a \<open>string\<close> in which every \<open>char\<close> is one code point in the range U+0000..U+00FF
  (so \<open>CHR 0xC1\<close> is the single character A-acute, not a byte of its UTF-8 form, and
  \<open>length\<close> counts characters as Python's \<open>len\<close> does). This range holds the whole
  alphabet of the card. The character classes below are the ones Python's \<open>re\<close>, \<open>str\<close>
  and \<open>int\<close> use, restricted to that range.
\<close>

definition cp :: "char \<Rightarrow> nat" where
  "cp c = of_char c"

text \<open>\<open>str.isspace\<close>, \<open>str.strip\<close> and the pattern \<open>\s\<close>: TAB..CR, FS..US, space, NEL, NBSP.\<close>

definition is_space :: "char \<Rightarrow> bool" where
  "is_space c = ((9 \<le> cp c \<and> cp c \<le> 13) \<or> (28 \<le> cp c \<and> cp c \<le> 32) \<or> cp c = 133 \<or> cp c = 160)"

text \<open>The pattern \<open>\d\<close>: the decimal digits, which below U+0100 are \<open>0\<close>..\<open>9\<close>.\<close>

definition is_decimal :: "char \<Rightarrow> bool" where
  "is_decimal c = (48 \<le> cp c \<and> cp c \<le> 57)"

text \<open>
  \<open>str.isalnum\<close> below U+0100: the ASCII letters and digits, the ordinal indicators and
  micro sign, the superscript digits, the vulgar fractions and the Latin-1 letters.
\<close>

definition is_alnum :: "char \<Rightarrow> bool" where
  "is_alnum c =
     (is_decimal c \<or> (65 \<le> cp c \<and> cp c \<le> 90) \<or> (97 \<le> cp c \<and> cp c \<le> 122) \<or>
      cp c = 170 \<or> cp c = 178 \<or> cp c = 179 \<or> cp c = 181 \<or> cp c = 185 \<or> cp c = 186 \<or>
      (188 \<le> cp c \<and> cp c \<le> 190) \<or> (192 \<le> cp c \<and> cp c \<le> 214) \<or>
      (216 \<le> cp c \<and> cp c \<le> 246) \<or> (248 \<le> cp c \<and> cp c \<le> 255))"

text \<open>The pattern \<open>\w\<close>, which decides the word boundary \<open>\b\<close>.\<close>

definition is_word :: "char \<Rightarrow> bool" where
  "is_word c = (is_alnum c \<or> c = CHR ''_'')"

text \<open>The lower-case mapping that \<open>re.IGNORECASE\<close> compares literals under.\<close>

definition to_lower :: "char \<Rightarrow> char" where
  "to_lower c =
     (if (65 \<le> cp c \<and> cp c \<le> 90) \<or> (192 \<le> cp c \<and> cp c \<le> 222 \<and> cp c \<noteq> 215)
      then char_of (cp c + 32) else c)"

definition starts_with :: "string \<Rightarrow> string \<Rightarrow> bool" where
  "starts_with pre s = (take (length pre) s = pre)"

definition strip :: "string \<Rightarrow> string" where
  "strip s = rev (dropWhile is_space (rev (dropWhile is_space s)))"

text \<open>\<open>s.split(sep)\<close> for a separator of one character.\<close>

fun split_on :: "char \<Rightarrow> string \<Rightarrow> string list" where
  "split_on sep [] = [[]]"
| "split_on sep (c # cs) =
     (if c = sep then [] # split_on sep cs
      else (case split_on sep cs of
              [] \<Rightarrow> [[c]]
            | w # ws \<Rightarrow> (c # w) # ws))"

section \<open>Integers and dates of the Python library\<close>

datatype exn = ValueError

text \<open>
  \<open>int(s)\<close> in base 10. Characters from U+007F on are first replaced: white space by a
  space, anything else by \<open>?\<close>. Then: optional ASCII white space, an optional sign,
  digits with single underscores between them, optional ASCII white space.
\<close>

definition ascii_space :: "char \<Rightarrow> bool" where
  "ascii_space c = (cp c = 32 \<or> (9 \<le> cp c \<and> cp c \<le> 13))"

definition to_ascii :: "char \<Rightarrow> char" where
  "to_ascii c = (if cp c < 127 then c else if is_space c then CHR '' '' else CHR ''?'')"

definition digit_val :: "char \<Rightarrow> int" where
  "digit_val c = int (cp c) - 48"

fun scan_digits :: "int \<Rightarrow> string \<Rightarrow> (int \<times> string) option" where
  "scan_digits acc [] = Some (acc, [])"
| "scan_digits acc (c # cs) =
     (if is_decimal c then scan_digits (10 * acc + digit_val c) cs
      else if c = CHR ''_'' then
        (case cs of
           [] \<Rightarrow> None
         | d # ds \<Rightarrow> if is_decimal d then scan_digits (10 * acc + digit_val d) ds else None)
      else Some (acc, c # cs))"

definition py_int :: "string \<Rightarrow> int option" where
  "py_int s =
     (let t = dropWhile ascii_space (map to_ascii s);
          sg = (if starts_with ''-'' t then - 1 else 1);
          u = (if starts_with ''+'' t \<or> starts_with ''-'' t then drop 1 t else t)
      in case u of
           [] \<Rightarrow> None
         | c # cs \<Rightarrow>
             if is_decimal c then
               (case scan_digits (digit_val c) cs of
                  None \<Rightarrow> None
                | Some (v, r) \<Rightarrow> if list_all ascii_space r then Some (sg * v) else None)
             else None)"

record datetime =
  year :: int
  month :: int
  day :: int
  hour :: int
  minute :: int
  second :: int
  microsecond :: int

definition is_leap :: "int \<Rightarrow> bool" where
  "is_leap y = (y mod 4 = 0 \<and> (y mod 100 \<noteq> 0 \<or> y mod 400 = 0))"

definition days_in_month :: "int \<Rightarrow> int \<Rightarrow> int" where
  "days_in_month y m =
     (if m = 2 \<and> is_leap y then 29
      else [31, 28, 31, 30, 31, 30, 31, 31, 30, 31, 30, 31] ! nat (m - 1))"

text \<open>The checks of the \<open>datetime(year, month, day)\<close> constructor (MINYEAR 1, MAXYEAR 9999).\<close>

definition valid_ymd :: "int \<Rightarrow> int \<Rightarrow> int \<Rightarrow> bool" where
  "valid_ymd y m d =
     (1 \<le> y \<and> y \<le> 9999 \<and> 1 \<le> m \<and> m \<le> 12 \<and> 1 \<le> d \<and> d \<le> days_in_month y m)"

definition py_datetime :: "int \<Rightarrow> int \<Rightarrow> int \<Rightarrow> exn + datetime" where
  "py_datetime y m d =
     (if valid_ymd y m d
      then Inr \<lparr>year = y, month = m, day = d, hour = 0, minute = 0, second = 0, microsecond = 0\<rparr>
      else Inl ValueError)"

definition days_before_year :: "int \<Rightarrow> int" where
  "days_before_year y = (y - 1) * 365 + (y - 1) div 4 - (y - 1) div 100 + (y - 1) div 400"

definition days_before_month :: "int \<Rightarrow> int \<Rightarrow> int" where
  "days_before_month y m =
     [0, 31, 59, 90, 120, 151, 181, 212, 243, 273, 304, 334] ! nat (m - 1) +
     (if 2 < m \<and> is_leap y then 1 else 0)"

definition toordinal :: "datetime \<Rightarrow> int" where
  "toordinal t = days_before_year (year t) + days_before_month (year t) (month t) + day t"

definition microseconds_of :: "datetime \<Rightarrow> int" where
  "microseconds_of t =
     (((toordinal t * 24 + hour t) * 60 + minute t) * 60 + second t) * 1000000 + microsecond t"

text \<open>\<open>(a - b).days\<close>: a \<open>timedelta\<close> keeps the floor of the difference in days.\<close>

definition timedelta_days :: "datetime \<Rightarrow> datetime \<Rightarrow> int" where
  "timedelta_days a b = (microseconds_of a - microseconds_of b) div 86400000000"

section \<open>Correction of OCR errors in a date\<close>

text \<open>
  \<open>corregir_fecha_ocr\<close>. The test \<open>int(dia) > 31\<close> stands before the \<open>try\<close>, so a
  \<open>ValueError\<close> it raises leaves the function; the ones raised inside the \<open>try\<close> give
  \<open>None\<close>.
\<close>

definition corregir_dia :: "string \<Rightarrow> exn + string" where
  "corregir_dia dia =
     (if starts_with ''3'' dia then
        (case py_int dia of
           None \<Rightarrow> Inl ValueError
         | Some n \<Rightarrow> Inr (if 31 < n then CHR ''0'' # [dia ! 1] else dia))
      else Inr dia)"

definition corregir_mes :: "string \<Rightarrow> string" where
  "corregir_mes mes = (if mes = ''19'' then ''10'' else mes)"

definition corregir_anio :: "string \<Rightarrow> string" where
  "corregir_anio anio =
     (if anio = ''2062'' then ''2002'' else if anio = ''2919'' then ''2019'' else anio)"

definition construir_fecha :: "string \<Rightarrow> string \<Rightarrow> string \<Rightarrow> exn + datetime" where
  "construir_fecha anio mes dia =
     (case py_int anio of
        None \<Rightarrow> Inl ValueError
      | Some y \<Rightarrow>
          (case py_int mes of
             None \<Rightarrow> Inl ValueError
           | Some m \<Rightarrow>
               (case py_int dia of
                  None \<Rightarrow> Inl ValueError
                | Some d \<Rightarrow> py_datetime y m d)))"

definition corregir_fecha_ocr :: "string \<Rightarrow> exn + string option" where
  "corregir_fecha_ocr fecha_str =
     (if fecha_str = [] \<or> length fecha_str \<noteq> 8 then Inr None
      else
        (case corregir_dia (take 2 fecha_str) of
           Inl e \<Rightarrow> Inl e
         | Inr dia \<Rightarrow>
             (let mes = corregir_mes (take 2 (drop 2 fecha_str));
                  anio = corregir_anio (take 4 (drop 4 fecha_str))
              in case construir_fecha anio mes dia of
                   Inl e \<Rightarrow> Inr None
                 | Inr fecha \<Rightarrow> Inr (Some (dia @ ''/'' @ mes @ ''/'' @ anio)))))"

section \<open>Regular expressions\<close>

text \<open>
  The subset of Python's \<open>re\<close> the engine uses. A character set is a list of items (one
  item for a literal or a class, several for \<open>[...]\<close>); a pattern is a list of elements.
  A literal compiled under \<open>re.IGNORECASE\<close> is \<open>LitI\<close>.
\<close>

datatype citem = Lit char | LitI char | Digit | Space | Range char char

fun in_citem :: "citem \<Rightarrow> char \<Rightarrow> bool" where
  "in_citem (Lit a) c = (c = a)"
| "in_citem (LitI a) c = (to_lower c = to_lower a)"
| "in_citem Digit c = is_decimal c"
| "in_citem Space c = is_space c"
| "in_citem (Range a b) c = (cp a \<le> cp c \<and> cp c \<le> cp b)"

definition in_cset :: "citem list \<Rightarrow> char \<Rightarrow> bool" where
  "in_cset cs c = list_ex (\<lambda>i. in_citem i c) cs"

text \<open>
  \<open>One\<close>: one character of the set; \<open>Star\<close>: greedy \<open>*\<close>; \<open>Opt\<close>: greedy \<open>?\<close>;
  \<open>GOpen\<close>, \<open>GClose\<close>: the parentheses of group 1; \<open>WordB\<close>: \<open>\b\<close>; \<open>Bol\<close>: \<open>^\<close>;
  \<open>Eol\<close>: \<open>$\<close> (no \<open>MULTILINE\<close>).
\<close>

datatype rx = One "citem list" | Star "citem list" | Opt "citem list"
  | GOpen | GClose | WordB | Bol | Eol

text \<open>
  Group 1 during a match: not entered, entered (with the input that was left when it was),
  or closed (with its text).
\<close>

datatype capst = NoGrp | Opened string | Captured string

definition word_before :: "char option \<Rightarrow> bool" where
  "word_before p = (case p of None \<Rightarrow> False | Some c \<Rightarrow> is_word c)"

definition word_after :: "string \<Rightarrow> bool" where
  "word_after s = (case s of [] \<Rightarrow> False | c # cs \<Rightarrow> is_word c)"

text \<open>
  The backtracking matcher, anchored where the input \<open>s\<close> starts; \<open>p\<close> is the character
  before that place (\<open>None\<close> at the start of the text). A greedy element first takes a
  character and goes on, and gives it back when the rest of the pattern then fails.
  The result is the state of group 1, the last character before the end of the match and
  the input left after it.
\<close>

fun rmatch :: "rx list \<Rightarrow> char option \<Rightarrow> string \<Rightarrow> capst \<Rightarrow> (capst \<times> char option \<times> string) option" where
  "rmatch [] p s g = Some (g, p, s)"
| "rmatch (One cs # es) p [] g = None"
| "rmatch (One cs # es) p (c # s) g = (if in_cset cs c then rmatch es (Some c) s g else None)"
| "rmatch (Star cs # es) p [] g = rmatch es p [] g"
| "rmatch (Star cs # es) p (c # s) g =
     (if in_cset cs c then
        (case rmatch (Star cs # es) (Some c) s g of
           Some r \<Rightarrow> Some r
         | None \<Rightarrow> rmatch es p (c # s) g)
      else rmatch es p (c # s) g)"
| "rmatch (Opt cs # es) p [] g = rmatch es p [] g"
| "rmatch (Opt cs # es) p (c # s) g =
     (if in_cset cs c then
        (case rmatch es (Some c) s g of
           Some r \<Rightarrow> Some r
         | None \<Rightarrow> rmatch es p (c # s) g)
      else rmatch es p (c # s) g)"
| "rmatch (GOpen # es) p s g = rmatch es p s (Opened s)"
| "rmatch (GClose # es) p s g =
     rmatch es p s (case g of Opened s0 \<Rightarrow> Captured (take (length s0 - length s) s0) | _ \<Rightarrow> g)"
| "rmatch (WordB # es) p s g =
     (if word_before p \<noteq> word_after s then rmatch es p s g else None)"
| "rmatch (Bol # es) p s g = (if p = None then rmatch es p s g else None)"
| "rmatch (Eol # es) p s g = (if s = [] \<or> s = [CHR 0x0A] then rmatch es p s g else None)"

text \<open>\<open>m.group(1)\<close>. Every group of this program's patterns is outside any optional part.\<close>

definition group1 :: "capst \<times> char option \<times> string \<Rightarrow> string" where
  "group1 r = (case fst r of Captured t \<Rightarrow> t | _ \<Rightarrow> [])"

text \<open>\<open>re.search\<close>: the first place, from the left, where the pattern matches.\<close>

fun search_from :: "rx list \<Rightarrow> char option \<Rightarrow> string \<Rightarrow> (capst \<times> char option \<times> string) option" where
  "search_from es p [] = rmatch es p [] NoGrp"
| "search_from es p (c # s) =
     (case rmatch es p (c # s) NoGrp of
        Some r \<Rightarrow> Some r
      | None \<Rightarrow> search_from es (Some c) s)"

definition re_search :: "rx list \<Rightarrow> string \<Rightarrow> (capst \<times> char option \<times> string) option" where
  "re_search es s = search_from es None s"

text \<open>\<open>re.match\<close>: the pattern at the start of the text only.\<close>

definition re_match :: "rx list \<Rightarrow> string \<Rightarrow> (capst \<times> char option \<times> string) option" where
  "re_match es s = rmatch es None s NoGrp"

text \<open>
  \<open>re.findall\<close> for a pattern with one group: the group of every match, from the left,
  each search starting where the match before it ended (one character further after an
  empty match).
\<close>

function findall_from :: "rx list \<Rightarrow> char option \<Rightarrow> string \<Rightarrow> string list" where
  "findall_from es p [] = (case rmatch es p [] NoGrp of Some r \<Rightarrow> [group1 r] | None \<Rightarrow> [])"
| "findall_from es p (c # s) =
     (case rmatch es p (c # s) NoGrp of
        Some r \<Rightarrow>
          (if length (snd (snd r)) < length (c # s)
           then group1 r # findall_from es (fst (snd r)) (snd (snd r))
           else group1 r # findall_from es (Some c) s)
      | None \<Rightarrow> findall_from es (Some c) s)"
  by pat_completeness auto
termination
  by (relation "measure (\<lambda>(es, p, s). length s)") auto

definition re_findall :: "rx list \<Rightarrow> string \<Rightarrow> string list" where
  "re_findall es s = findall_from es None s"

text \<open>Pattern text: literals, literals under \<open>IGNORECASE\<close>, \<open>x{n}\<close> and \<open>x+\<close>.\<close>

definition lit :: "string \<Rightarrow> rx list" where
  "lit w = map (\<lambda>c. One [Lit c]) w"

definition lit_i :: "string \<Rightarrow> rx list" where
  "lit_i w = map (\<lambda>c. One [LitI c]) w"

definition rep :: "nat \<Rightarrow> citem list \<Rightarrow> rx list" where
  "rep n cs = replicate n (One cs)"

definition one_or_more :: "citem list \<Rightarrow> rx list" where
  "one_or_more cs = [One cs, Star cs]"

section \<open>The parser\<close>

text \<open>
  The dictionary \<open>datos\<close>: each key the parser can set is a field, \<open>None\<close> while the key
  is absent.
\<close>

record datos =
  dni :: "string option"
  apellido_paterno :: "string option"
  apellido_materno :: "string option"
  nombres :: "string option"
  fecha_nacimiento :: "string option"
  fecha_nacimiento_iso :: "string option"
  edad :: "int option"
  sexo :: "string option"
  sexo_completo :: "string option"
  nombre_completo :: "string option"

text \<open>The patterns, in the order the parser uses them.\<close>

definition pat_dni :: "rx list" where
  \<comment> \<open>\<open>DNI\s*(\d{8})\<close>, \<open>IGNORECASE\<close>\<close>
  "pat_dni = lit_i ''DNI'' @ [Star [Space], GOpen] @ rep 8 [Digit] @ [GClose]"

definition pat_mrz :: "rx list" where
  \<comment> \<open>\<open>PER(\d{8})\<close>\<close>
  "pat_mrz = lit ''PER'' @ [GOpen] @ rep 8 [Digit] @ [GClose]"

definition pat_primer :: "rx list" where
  \<comment> \<open>\<open>PRIMER\s*APELLIDO\<close>, \<open>IGNORECASE\<close>\<close>
  "pat_primer = lit_i ''PRIMER'' @ [Star [Space]] @ lit_i ''APELLIDO''"

definition letras :: "citem list" where
  \<comment> \<open>the set \<open>[A-Z...\s]\<close> with the accented capitals A, E, I, O, U and N-tilde\<close>
  "letras = [Range CHR ''A'' CHR ''Z'', Lit (CHR 0xC1), Lit (CHR 0xC9), Lit (CHR 0xCD),
             Lit (CHR 0xD3), Lit (CHR 0xDA), Lit (CHR 0xD1), Space]"

definition pat_letras :: "rx list" where
  \<comment> \<open>\<open>^[A-Z...\s]+$\<close>\<close>
  "pat_letras = [Bol] @ one_or_more letras @ [Eol]"

definition pat_segundo :: "rx list" where
  \<comment> \<open>\<open>SEGUNDO[\.\s]*APELLIDO\<close>, \<open>IGNORECASE\<close>\<close>
  "pat_segundo = lit_i ''SEGUNDO'' @ [Star [Lit CHR ''.'', Space]] @ lit_i ''APELLIDO''"

definition pat_prenombres :: "rx list" where
  \<comment> \<open>\<open>PRE\s*NOMBRES?\<close>, \<open>IGNORECASE\<close>\<close>
  "pat_prenombres = lit_i ''PRE'' @ [Star [Space]] @ lit_i ''NOMBRE'' @ [Opt [LitI CHR ''S'']]"

definition pat_fecha :: "rx list" where
  \<comment> \<open>\<open>\b(\d{8})\b\<close>\<close>
  "pat_fecha = [WordB, GOpen] @ rep 8 [Digit] @ [GClose, WordB]"

definition pat_sexo :: "rx list" where
  \<comment> \<open>\<open>\d{6}([MF])\d{7}\<close>\<close>
  "pat_sexo = rep 6 [Digit] @ [GOpen, One [Lit CHR ''M'', Lit CHR ''F''], GClose] @ rep 7 [Digit]"

definition lineas_de :: "string \<Rightarrow> string list" where
  "lineas_de texto_ocr = filter (\<lambda>l. l \<noteq> []) (map strip (split_on (CHR 0x0A) texto_ocr))"

text \<open>The document number.\<close>

definition dni_raw :: "string \<Rightarrow> string option" where
  "dni_raw texto_ocr = map_option group1 (re_search pat_dni texto_ocr)"

definition mrz_dni :: "string \<Rightarrow> string option" where
  "mrz_dni texto_ocr = map_option group1 (re_search pat_mrz texto_ocr)"

definition parsear_numero :: "string \<Rightarrow> string option" where
  "parsear_numero texto_ocr =
     (case dni_raw texto_ocr of
        None \<Rightarrow> None
      | Some raw \<Rightarrow>
          if starts_with ''00'' raw then
            (case mrz_dni texto_ocr of
               Some mrz \<Rightarrow> Some mrz
             | None \<Rightarrow> Some raw)
          else Some raw)"

text \<open>
  The three loops over the lines have one shape: at the first line with the label, take
  the line after it if there is one, and stop. \<open>candidato_tras\<close> is that line.
\<close>

fun candidato_tras :: "rx list \<Rightarrow> string list \<Rightarrow> string option" where
  "candidato_tras pat [] = None"
| "candidato_tras pat (linea # resto) =
     (if re_search pat linea \<noteq> None then (case resto of [] \<Rightarrow> None | candidato # _ \<Rightarrow> Some candidato)
      else candidato_tras pat resto)"

definition parsear_apellido_paterno :: "string list \<Rightarrow> string option" where
  "parsear_apellido_paterno lineas =
     (case candidato_tras pat_primer lineas of
        None \<Rightarrow> None
      | Some candidato \<Rightarrow> if re_match pat_letras candidato \<noteq> None then Some candidato else None)"

definition parsear_apellido_materno :: "string list \<Rightarrow> string option" where
  "parsear_apellido_materno lineas =
     (case candidato_tras pat_segundo lineas of
        None \<Rightarrow> None
      | Some candidato0 \<Rightarrow>
          (let candidato = (if candidato0 = ''MUNEZ'' then ''NUNEZ'' else candidato0) in
           if re_match pat_letras candidato \<noteq> None then Some candidato else None))"

definition nombres_comunes :: "string list" where
  "nombres_comunes = [''MARIA'', ''MONICA'', ''JUAN'', ''JOSE'', ''LUIS'', ''CARLOS'', ''ISABEL'']"

text \<open>The inner loop of the given names: the first name of the list that fits is applied.\<close>

fun separar_nombres :: "string list \<Rightarrow> string \<Rightarrow> string" where
  "separar_nombres [] candidato = candidato"
| "separar_nombres (nombre # resto) candidato =
     (if starts_with nombre candidato \<and> length nombre < length candidato
      then nombre @ '' '' @ drop (length nombre) candidato
      else separar_nombres resto candidato)"

definition parsear_nombres :: "string list \<Rightarrow> string option" where
  "parsear_nombres lineas =
     (case candidato_tras pat_prenombres lineas of
        None \<Rightarrow> None
      | Some candidato \<Rightarrow> Some (separar_nombres nombres_comunes candidato))"

text \<open>
  The birth date. \<open>hoy\<close> is what \<open>datetime.now()\<close> returns during the call. The loop
  stops at the first candidate it accepts; the result is the three values it stores.
  The unpacking of \<open>split('/')\<close> and the call of \<open>corregir_fecha_ocr\<close> stand outside the
  \<open>try\<close>.
\<close>

definition calcular_edad :: "datetime \<Rightarrow> datetime \<Rightarrow> int" where
  "calcular_edad hoy fecha_nac = timedelta_days hoy fecha_nac div 365"

fun buscar_fecha :: "datetime \<Rightarrow> string list \<Rightarrow> exn + (string \<times> string \<times> int) option" where
  "buscar_fecha hoy [] = Inr None"
| "buscar_fecha hoy (fecha_raw # resto) =
     (case corregir_fecha_ocr fecha_raw of
        Inl e \<Rightarrow> Inl e
      | Inr None \<Rightarrow> buscar_fecha hoy resto
      | Inr (Some fecha_corregida) \<Rightarrow>
          if fecha_corregida = [] then buscar_fecha hoy resto
          else
            (case split_on (CHR ''/'') fecha_corregida of
               [dia, mes, anio] \<Rightarrow>
                 (case construir_fecha anio mes dia of
                    Inl e \<Rightarrow> buscar_fecha hoy resto
                  | Inr fecha_nac \<Rightarrow>
                      (let e = calcular_edad hoy fecha_nac in
                       if 0 \<le> e \<and> e \<le> 120
                       then Inr (Some (fecha_corregida, anio @ ''-'' @ mes @ ''-'' @ dia, e))
                       else buscar_fecha hoy resto))
             | _ \<Rightarrow> Inl ValueError))"

definition parsear_fecha :: "datetime \<Rightarrow> string \<Rightarrow> exn + (string \<times> string \<times> int) option" where
  "parsear_fecha hoy texto_ocr = buscar_fecha hoy (re_findall pat_fecha texto_ocr)"

definition parsear_sexo :: "string \<Rightarrow> string option" where
  "parsear_sexo texto_ocr = map_option group1 (re_search pat_sexo texto_ocr)"

definition armar_nombre_completo :: "string option \<Rightarrow> string option \<Rightarrow> string option \<Rightarrow> string option" where
  "armar_nombre_completo n p m =
     (case (n, p, m) of
        (Some ns, Some pat, Some mat) \<Rightarrow> Some (ns @ '' '' @ pat @ '' '' @ mat)
      | (Some ns, Some pat, None) \<Rightarrow> Some (ns @ '' '' @ pat)
      | _ \<Rightarrow> None)"

definition parsear_dni :: "datetime \<Rightarrow> string \<Rightarrow> exn + datos" where
  "parsear_dni hoy texto_ocr =
     (let lineas = lineas_de texto_ocr;
          d = parsear_numero texto_ocr;
          ap = parsear_apellido_paterno lineas;
          am = parsear_apellido_materno lineas;
          n = parsear_nombres lineas
      in case parsear_fecha hoy texto_ocr of
           Inl e \<Rightarrow> Inl e
         | Inr f \<Rightarrow>
             (let s = parsear_sexo texto_ocr in
              Inr \<lparr>dni = d, apellido_paterno = ap, apellido_materno = am, nombres = n,
                   fecha_nacimiento = map_option fst f,
                   fecha_nacimiento_iso = map_option (fst \<circ> snd) f,
                   edad = map_option (snd \<circ> snd) f,
                   sexo = s,
                   sexo_completo =
                     map_option (\<lambda>x. if x = ''M'' then ''MASCULINO'' else ''FEMENINO'') s,
                   nombre_completo = armar_nombre_completo n ap am\<rparr>))"

section \<open>The entry point\<close>

text \<open>
  What the collaborators of \<open>extraer_datos_dni\<close> did with the image, as far as the
  function depends on it: the engine was never initialised; the image could not be read;
  the enhancement, the OCR call or the assembly of the text raised an exception (with its
  message); or the OCR returned the texts of its blocks (an empty or absent result is the
  empty list).
\<close>

datatype ocr_run = SinMotor | SinImagen | Excepcion string | Bloques "string list"

datatype resultado = Error string | Datos datos

fun join_lines :: "string list \<Rightarrow> string" where
  "join_lines [] = []"
| "join_lines [l] = l"
| "join_lines (l # ls) = l @ CHR 0x0A # join_lines ls"

text \<open>\<open>str(e)\<close> of the only exception the parser can raise (the literal is left out).\<close>

definition str_exn :: "exn \<Rightarrow> string" where
  "str_exn e = ''invalid literal for int() with base 10''"

definition extraer_datos_dni :: "datetime \<Rightarrow> ocr_run \<Rightarrow> resultado" where
  "extraer_datos_dni hoy run =
     (case run of
        SinMotor \<Rightarrow> Error ''OCR no inicializado correctamente''
      | SinImagen \<Rightarrow> Error ''No se pudo cargar la imagen''
      | Excepcion msg \<Rightarrow> Error (''Error procesando DNI: '' @ msg)
      | Bloques bs \<Rightarrow>
          if bs = [] then Error ''No se pudo extraer texto de la imagen''
          else
            (case parsear_dni hoy (join_lines bs) of
               Inl e \<Rightarrow> Error (''Error procesando DNI: '' @ str_exn e)
             | Inr d \<Rightarrow>
                 if dni d = None \<or> dni d = Some [] then Error ''No se pudo detectar el DNI en la imagen''
                 else Datos d))"

section \<open>Evaluation instant used in the examples\<close>

definition hoy_ejemplo :: datetime where
  "hoy_ejemplo = \<lparr>year = 2026, month = 12, day = 25, hour = 10, minute = 30, second = 0, microsecond = 0\<rparr>"

section \<open>Reference definitions for the statements\<close>

text \<open>The number a string of decimal digits denotes.\<close>

definition valor_decimal :: "string \<Rightarrow> int" where
  "valor_decimal s = foldl (\<lambda>a c. 10 * a + digit_val c) 0 s"

text \<open>
  The corrections of the date as the specification lists them, on a day of two digits and
  on the eight digits of a date: a day that starts with \<open>3\<close> and is above 31 becomes \<open>0\<close>
  and its second digit; the month \<open>19\<close> becomes \<open>10\<close>; the years \<open>2062\<close> and \<open>2919\<close>
  become \<open>2002\<close> and \<open>2019\<close>; the result is \<open>dd/mm/yyyy\<close> when day, month and year are a
  date of the calendar, and nothing otherwise.
\<close>

definition dia_esperado :: "string \<Rightarrow> string" where
  "dia_esperado d = (if hd d = CHR ''3'' \<and> 31 < valor_decimal d then [CHR ''0'', d ! 1] else d)"

definition fecha_esperada :: "string \<Rightarrow> string option" where
  "fecha_esperada s =
     (let dia = dia_esperado (take 2 s);
          mes = (if take 2 (drop 2 s) = ''19'' then ''10'' else take 2 (drop 2 s));
          anio = (if take 4 (drop 4 s) = ''2062'' then ''2002''
                  else if take 4 (drop 4 s) = ''2919'' then ''2019'' else take 4 (drop 4 s))
      in if valid_ymd (valor_decimal anio) (valor_decimal mes) (valor_decimal dia)
         then Some (dia @ ''/'' @ mes @ ''/'' @ anio) else None)"

text \<open>
  The full years from a birth date (a day, at midnight) to an instant: the difference of
  the years, less one while the birthday of the instant's year is still ahead.
\<close>

definition anios_cumplidos :: "datetime \<Rightarrow> datetime \<Rightarrow> int" where
  "anios_cumplidos hoy nac =
     year hoy - year nac -
     (if month hoy < month nac \<or> (month hoy = month nac \<and> day hoy < day nac) then 1 else 0)"

text \<open>
  The character before a place of the text: \<open>lastp p w\<close> is the last character of \<open>w\<close>, or
  \<open>p\<close>, the character before \<open>w\<close>, when \<open>w\<close> is empty.
\<close>

definition lastp :: "char option \<Rightarrow> string \<Rightarrow> char option" where
  "lastp p w = (if w = [] then p else Some (last w))"

text \<open>
  An occurrence of the document-number label in a text, after the characters \<open>pre\<close>: the
  letters \<open>DNI\<close> in either case, white space (none, or more), and the eight decimal digits
  \<open>ds\<close>; anything may follow. An occurrence of the machine-readable zone: the capital
  letters \<open>PER\<close> and the eight decimal digits \<open>ds\<close>.
\<close>

definition ocurre_dni :: "string \<Rightarrow> string \<Rightarrow> string \<Rightarrow> bool" where
  "ocurre_dni pre ds texto \<longleftrightarrow>
     (\<exists>k ws post. texto = pre @ k @ ws @ ds @ post \<and> map to_lower k = ''dni'' \<and>
        list_all is_space ws \<and> length ds = 8 \<and> list_all is_decimal ds)"

definition ocurre_mrz :: "string \<Rightarrow> string \<Rightarrow> string \<Rightarrow> bool" where
  "ocurre_mrz pre ds texto \<longleftrightarrow>
     (\<exists>post. texto = pre @ ''PER'' @ ds @ post \<and> length ds = 8 \<and> list_all is_decimal ds)"

text \<open>
  The date that a string \<open>dd/mm/yyyy\<close> denotes, at midnight, and its form \<open>yyyy-mm-dd\<close>.
\<close>

definition fecha_de :: "string \<Rightarrow> datetime" where
  "fecha_de f =
     \<lparr>year = valor_decimal (drop 6 f), month = valor_decimal (take 2 (drop 3 f)),
      day = valor_decimal (take 2 f), hour = 0, minute = 0, second = 0, microsecond = 0\<rparr>"

definition iso_de :: "string \<Rightarrow> string" where
  "iso_de f = drop 6 f @ ''-'' @ take 2 (drop 3 f) @ ''-'' @ take 2 f"

text \<open>
  A candidate of the birth date is accepted when the date corrector gives a date for it
  and the age that the parser derives from that date is from 0 to 120. \<open>guardado\<close> is what
  the parser stores for an accepted candidate: the date, its ISO form and the age.
\<close>

definition aceptada :: "datetime \<Rightarrow> string \<Rightarrow> bool" where
  "aceptada hoy c =
     (case corregir_fecha_ocr c of
        Inr (Some f) \<Rightarrow> 0 \<le> calcular_edad hoy (fecha_de f) \<and> calcular_edad hoy (fecha_de f) \<le> 120
      | _ \<Rightarrow> False)"

definition guardado :: "datetime \<Rightarrow> string \<Rightarrow> string \<times> string \<times> int" where
  "guardado hoy c =
     (case corregir_fecha_ocr c of
        Inr (Some f) \<Rightarrow> (f, iso_de f, calcular_edad hoy (fecha_de f))
      | _ \<Rightarrow> ([], [], 0))"

text \<open>
  The candidates of the birth date as runs of digits. \<open>aislada p s\<close>: the text \<open>s\<close> starts
  with eight decimal digits that have no word character (a letter, a digit or an
  underscore) right before them, where \<open>p\<close> is the character before \<open>s\<close>, nor right after
  them. \<open>candidatos\<close> lists these runs of eight digits from left to right.
\<close>

definition aislada :: "char option \<Rightarrow> string \<Rightarrow> bool" where
  "aislada p s \<longleftrightarrow>
     \<not> word_before p \<and> 8 \<le> length s \<and> list_all is_decimal (take 8 s) \<and> \<not> word_after (drop 8 s)"

fun candidatos_desde :: "char option \<Rightarrow> string \<Rightarrow> string list" where
  "candidatos_desde p [] = []"
| "candidatos_desde p (c # s) =
     (if aislada p (c # s) then take 8 (c # s) # candidatos_desde (Some c) s
      else candidatos_desde (Some c) s)"

definition candidatos :: "string \<Rightarrow> string list" where
  "candidatos texto = candidatos_desde None texto"

section \<open>Splitting of given names\<close>

lemma sw_Cons: "starts_with (a # n) (b # s) = (a = b \<and> starts_with n s)"
  by (auto simp: starts_with_def)

lemma sw_Nil: "starts_with [] s"
  by (simp add: starts_with_def)

lemma en_comunes:
  "n \<in> set nombres_comunes \<longleftrightarrow>
   n = ''MARIA'' \<or> n = ''MONICA'' \<or> n = ''JUAN'' \<or> n = ''JOSE'' \<or> n = ''LUIS'' \<or>
   n = ''CARLOS'' \<or> n = ''ISABEL''"
  unfolding nombres_comunes_def by simp

lemma separar_cada:
  assumes "resto \<noteq> []"
  shows "separar_nombres nombres_comunes (''MARIA'' @ resto) = ''MARIA'' @ '' '' @ resto"
    and "separar_nombres nombres_comunes (''MONICA'' @ resto) = ''MONICA'' @ '' '' @ resto"
    and "separar_nombres nombres_comunes (''JUAN'' @ resto) = ''JUAN'' @ '' '' @ resto"
    and "separar_nombres nombres_comunes (''JOSE'' @ resto) = ''JOSE'' @ '' '' @ resto"
    and "separar_nombres nombres_comunes (''LUIS'' @ resto) = ''LUIS'' @ '' '' @ resto"
    and "separar_nombres nombres_comunes (''CARLOS'' @ resto) = ''CARLOS'' @ '' '' @ resto"
    and "separar_nombres nombres_comunes (''ISABEL'' @ resto) = ''ISABEL'' @ '' '' @ resto"
  using assms by (simp_all add: nombres_comunes_def sw_Cons sw_Nil)

lemma separar_prefijo:
  assumes "n \<in> set nombres_comunes" "resto \<noteq> []"
  shows "separar_nombres nombres_comunes (n @ resto) = n @ '' '' @ resto"
  using assms(1) separar_cada[OF assms(2)] unfolding en_comunes by blast

lemma separar_find:
  "separar_nombres ns c =
     (case find (\<lambda>n. starts_with n c \<and> length n < length c) ns of
        None \<Rightarrow> c
      | Some n \<Rightarrow> n @ '' '' @ drop (length n) c)"
  by (induction ns) simp_all

text \<open>
  C9. The line after the given-names label is kept as it is unless a name of the list
  \<open>MARIA, MONICA, JUAN, JOSE, LUIS, CARLOS, ISABEL\<close> is a proper prefix of it; then one
  space is put right after that prefix, for the first such name of the list only. A line
  made of a listed name and a non-empty rest becomes the name, a space and the rest; the
  line \<open>MARIAISABEL\<close> becomes \<open>MARIA ISABEL\<close>.
\<close>

theorem nombres_separados:
  "(candidato_tras pat_prenombres lineas = Some c \<longrightarrow>
      parsear_nombres lineas =
        Some (case find (\<lambda>n. starts_with n c \<and> length n < length c) nombres_comunes of
                None \<Rightarrow> c
              | Some n \<Rightarrow> n @ '' '' @ drop (length n) c)) \<and>
   (candidato_tras pat_prenombres lineas = Some (n @ resto) \<and> n \<in> set nombres_comunes \<and> resto \<noteq> [] \<longrightarrow>
      parsear_nombres lineas = Some (n @ '' '' @ resto)) \<and>
   separar_nombres nombres_comunes ''MARIAISABEL'' = ''MARIA ISABEL''"
proof (intro conjI impI)
  assume "candidato_tras pat_prenombres lineas = Some c"
  then show "parsear_nombres lineas =
        Some (case find (\<lambda>n. starts_with n c \<and> length n < length c) nombres_comunes of
                None \<Rightarrow> c
              | Some n \<Rightarrow> n @ '' '' @ drop (length n) c)"
    by (simp add: parsear_nombres_def separar_find)
next
  assume "candidato_tras pat_prenombres lineas = Some (n @ resto) \<and> n \<in> set nombres_comunes \<and> resto \<noteq> []"
  then show "parsear_nombres lineas = Some (n @ '' '' @ resto)"
    by (simp add: parsear_nombres_def separar_prefijo)
next
  show "separar_nombres nombres_comunes ''MARIAISABEL'' = ''MARIA ISABEL''"
    using separar_cada(1)[of "''ISABEL''"] by simp
qed

theorem nombres_separados_witness:
  "candidato_tras pat_prenombres [''PRE NOMBRES'', ''MARIAISABEL''] = Some (''MARIA'' @ ''ISABEL'') \<and>
   ''MARIA'' \<in> set nombres_comunes \<and> ''ISABEL'' \<noteq> [] \<and>
   parsear_nombres [''PRE NOMBRES'', ''MARIAISABEL''] = Some ''MARIA ISABEL''"
proof -
  have a: "candidato_tras pat_prenombres [''PRE NOMBRES'', ''MARIAISABEL''] = Some (''MARIA'' @ ''ISABEL'')"
    by code_simp
  have b: "''MARIA'' \<in> set nombres_comunes"
    by (simp add: en_comunes)
  from a b nombres_separados[of "[''PRE NOMBRES'', ''MARIAISABEL'']" _ "''MARIA''" "''ISABEL''"]
  show ?thesis by simp
qed

text \<open>
  C10. When the line after the given-names label is a listed name followed by a space and
  anything more (as in the well-formed \<open>MARIA ISABEL\<close>), a further space is still put
  after the name, so the stored given names have two spaces in a row (\<open>MARIA  ISABEL\<close>).
\<close>

theorem nombres_con_dos_espacios:
  "candidato_tras pat_prenombres lineas = Some (n @ '' '' @ resto) \<Longrightarrow> n \<in> set nombres_comunes \<Longrightarrow>
   parsear_nombres lineas = Some (n @ ''  '' @ resto)"
  using separar_prefijo[of n "'' '' @ resto"] by (simp add: parsear_nombres_def)

theorem nombres_con_dos_espacios_witness:
  "candidato_tras pat_prenombres [''PRE NOMBRES'', ''MARIA ISABEL''] = Some (''MARIA'' @ '' '' @ ''ISABEL'') \<and>
   ''MARIA'' \<in> set nombres_comunes \<and>
   parsear_nombres [''PRE NOMBRES'', ''MARIA ISABEL''] = Some ''MARIA  ISABEL''"
proof -
  have a: "candidato_tras pat_prenombres [''PRE NOMBRES'', ''MARIA ISABEL''] = Some (''MARIA'' @ '' '' @ ''ISABEL'')"
    by code_simp
  have b: "''MARIA'' \<in> set nombres_comunes"
    by (simp add: en_comunes)
  from a b nombres_con_dos_espacios[OF a b]
  show ?thesis by simp
qed

section \<open>The date corrector\<close>

lemma scan_digits_all:
  "list_all is_decimal s \<Longrightarrow> scan_digits acc s = Some (foldl (\<lambda>a c. 10 * a + digit_val c) acc s, [])"
  by (induction s arbitrary: acc) simp_all

lemma to_ascii_decimal: "is_decimal c \<Longrightarrow> to_ascii c = c"
  by (simp add: to_ascii_def is_decimal_def)

lemma map_to_ascii_decimal: "list_all is_decimal s \<Longrightarrow> map to_ascii s = s"
  by (induction s) (simp_all add: to_ascii_decimal)

lemma decimal_not_space: "is_decimal c \<Longrightarrow> \<not> ascii_space c"
  by (auto simp: is_decimal_def ascii_space_def)

lemma decimal_not_sign: "is_decimal c \<Longrightarrow> c \<noteq> CHR ''-'' \<and> c \<noteq> CHR ''+''"
  by (auto simp: is_decimal_def cp_def)

lemma py_int_decimal:
  assumes "s \<noteq> []" "list_all is_decimal s"
  shows "py_int s = Some (valor_decimal s)"
proof -
  from assms obtain c cs where s: "s = c # cs" and c: "is_decimal c" and cs: "list_all is_decimal cs"
    by (cases s) auto
  have m: "map to_ascii s = s"
    using assms(2) by (rule map_to_ascii_decimal)
  show ?thesis
    unfolding py_int_def m
    using c cs decimal_not_space[OF c] decimal_not_sign[OF c]
    by (simp add: s starts_with_def scan_digits_all valor_decimal_def)
qed

lemma list_all_take: "list_all P s \<Longrightarrow> list_all P (take n s)"
  by (simp add: list_all_iff) (meson in_set_takeD)

lemma list_all_drop: "list_all P s \<Longrightarrow> list_all P (drop n s)"
  by (simp add: list_all_iff) (meson in_set_dropD)

lemma decimal_chars:
  "is_decimal CHR ''0''" "is_decimal CHR ''1''" "is_decimal CHR ''2''" "is_decimal CHR ''9''"
  by (simp_all add: is_decimal_def cp_def)

lemma corregir_dia_decimal:
  assumes "length d = 2" "list_all is_decimal d"
  shows "corregir_dia d = Inr (dia_esperado d)"
proof -
  from assms(1) obtain a b where d: "d = [a, b]"
    by (cases d; cases "tl d") auto
  have "py_int d = Some (valor_decimal d)"
    using assms by (intro py_int_decimal) auto
  then show ?thesis
    by (simp add: corregir_dia_def dia_esperado_def d sw_Cons sw_Nil)
qed

lemma dia_esperado_decimal:
  assumes "length d = 2" "list_all is_decimal d"
  shows "length (dia_esperado d) = 2 \<and> list_all is_decimal (dia_esperado d)"
proof -
  from assms(1) obtain a b where d: "d = [a, b]"
    by (cases d; cases "tl d") auto
  show ?thesis using assms(2) by (simp add: dia_esperado_def d decimal_chars)
qed

lemma corregir_mes_decimal:
  "length m = 2 \<Longrightarrow> list_all is_decimal m \<Longrightarrow>
   length (corregir_mes m) = 2 \<and> list_all is_decimal (corregir_mes m)"
  by (simp add: corregir_mes_def decimal_chars)

lemma corregir_anio_decimal:
  "length a = 4 \<Longrightarrow> list_all is_decimal a \<Longrightarrow>
   length (corregir_anio a) = 4 \<and> list_all is_decimal (corregir_anio a)"
  by (simp add: corregir_anio_def decimal_chars)

lemma construir_fecha_decimal:
  assumes "a \<noteq> []" "list_all is_decimal a" "m \<noteq> []" "list_all is_decimal m"
    "d \<noteq> []" "list_all is_decimal d"
  shows "construir_fecha a m d = py_datetime (valor_decimal a) (valor_decimal m) (valor_decimal d)"
  using assms by (simp add: construir_fecha_def py_int_decimal)

text \<open>On eight digits the corrector never raises, and its parts are digits again.\<close>

lemma corregir_fecha_partes:
  assumes "length s = 8" "list_all is_decimal s"
  defines "d \<equiv> dia_esperado (take 2 s)"
    and "m \<equiv> corregir_mes (take 2 (drop 2 s))"
    and "a \<equiv> corregir_anio (take 4 (drop 4 s))"
  shows "length d = 2 \<and> list_all is_decimal d \<and> length m = 2 \<and> list_all is_decimal m \<and>
         length a = 4 \<and> list_all is_decimal a \<and>
         corregir_fecha_ocr s =
           (case construir_fecha a m d of
              Inl e \<Rightarrow> Inr None
            | Inr fecha \<Rightarrow> Inr (Some (d @ ''/'' @ m @ ''/'' @ a)))"
proof -
  define d0 m0 a0 where "d0 = take 2 s" and "m0 = take 2 (drop 2 s)" and "a0 = take 4 (drop 4 s)"
  have d0: "length d0 = 2" "list_all is_decimal d0"
    using assms(1,2) by (simp_all add: d0_def list_all_take)
  have m0: "length m0 = 2" "list_all is_decimal m0"
    using assms(1,2) by (simp_all add: m0_def list_all_take list_all_drop)
  have a0: "length a0 = 4" "list_all is_decimal a0"
    using assms(1,2) by (simp_all add: a0_def list_all_take list_all_drop)
  have s: "\<not> (s = [] \<or> length s \<noteq> 8)" using assms(1) by auto
  have "corregir_fecha_ocr s =
          (case construir_fecha (corregir_anio a0) (corregir_mes m0) (dia_esperado d0) of
             Inl e \<Rightarrow> Inr None
           | Inr fecha \<Rightarrow> Inr (Some (dia_esperado d0 @ ''/'' @ corregir_mes m0 @ ''/'' @ corregir_anio a0)))"
    unfolding corregir_fecha_ocr_def Let_def d0_def[symmetric] m0_def[symmetric] a0_def[symmetric]
      corregir_dia_decimal[OF d0] if_not_P[OF s]
    by simp
  then show ?thesis
    using dia_esperado_decimal[OF d0] corregir_mes_decimal[OF m0] corregir_anio_decimal[OF a0]
    unfolding d_def m_def a_def d0_def m0_def a0_def by blast
qed

lemma corregir_fecha_decimal:
  assumes "length s = 8" "list_all is_decimal s"
  shows "corregir_fecha_ocr s = Inr (fecha_esperada s)"
proof -
  define d m a where "d = dia_esperado (take 2 s)" and "m = corregir_mes (take 2 (drop 2 s))"
    and "a = corregir_anio (take 4 (drop 4 s))"
  note p = corregir_fecha_partes[OF assms, folded d_def m_def a_def]
  have ne: "d \<noteq> []" "m \<noteq> []" "a \<noteq> []"
    using p by auto
  have c: "construir_fecha a m d = py_datetime (valor_decimal a) (valor_decimal m) (valor_decimal d)"
    using ne p by (intro construir_fecha_decimal) simp_all
  have "fecha_esperada s =
          (if valid_ymd (valor_decimal a) (valor_decimal m) (valor_decimal d)
           then Some (d @ ''/'' @ m @ ''/'' @ a) else None)"
    unfolding fecha_esperada_def Let_def d_def m_def a_def corregir_mes_def corregir_anio_def ..
  then show ?thesis
    using p by (simp add: c py_datetime_def)
qed

text \<open>
  On the strings the parser passes to it the corrector does what its contract says. A
  string that is not of eight characters gives none. A string of eight decimal digits
  gives, after the day, month and year corrections in that order, the corrected date as
  \<open>dd/mm/yyyy\<close> when the corrected day, month and year are a date of the calendar, and
  none otherwise. \<open>35112002\<close> gives \<open>05/11/2002\<close>.
\<close>

lemma corrector_en_digitos:
  "(length s \<noteq> 8 \<longrightarrow> corregir_fecha_ocr s = Inr None) \<and>
   (length s = 8 \<and> list_all is_decimal s \<longrightarrow> corregir_fecha_ocr s = Inr (fecha_esperada s)) \<and>
   corregir_fecha_ocr ''35112002'' = Inr (Some ''05/11/2002'')"
proof (intro conjI impI)
  assume "length s \<noteq> 8"
  then show "corregir_fecha_ocr s = Inr None"
    by (simp add: corregir_fecha_ocr_def)
next
  assume "length s = 8 \<and> list_all is_decimal s"
  then show "corregir_fecha_ocr s = Inr (fecha_esperada s)"
    by (simp add: corregir_fecha_decimal)
next
  show "corregir_fecha_ocr ''35112002'' = Inr (Some ''05/11/2002'')"
    by code_simp
qed

lemma corrector_en_digitos_ejemplo:
  "length ''15192005'' = 8 \<and> list_all is_decimal ''15192005'' \<and>
   corregir_fecha_ocr ''15192005'' = Inr (Some ''15/10/2005'') \<and>
   length ''1234'' \<noteq> 8 \<and> corregir_fecha_ocr ''1234'' = Inr None"
proof -
  have a: "length ''15192005'' = 8 \<and> list_all is_decimal ''15192005''"
    by (simp add: is_decimal_def cp_def)
  have b: "fecha_esperada ''15192005'' = Some ''15/10/2005''"
    by code_simp
  have c: "length ''1234'' \<noteq> 8"
    by simp
  from a b c corrector_en_digitos[of "''15192005''"] corrector_en_digitos[of "''1234''"]
  show ?thesis by simp
qed

text \<open>
  C1. The claim is that every string of eight characters whose corrected day, month and
  year are not a date gives none. The function does so when the bad character is met
  inside the \<open>try\<close> (\<open>1a012000\<close> gives none), but on the eight characters \<open>3a012000\<close> it
  returns nothing at all: the day starts with \<open>3\<close>, so \<open>int(dia) > 31\<close> is evaluated
  before the \<open>try\<close>, and the \<open>ValueError\<close> of \<open>int('3a')\<close> leaves the function.
\<close>

theorem fecha_3a_levanta_error:
  "length ''3a012000'' = 8 \<and> corregir_fecha_ocr ''3a012000'' = Inl ValueError \<and>
   corregir_fecha_ocr ''1a012000'' = Inr None"
  by code_simp

section \<open>The age\<close>

text \<open>
  C4. The claim is that the stored age is the number of full years between the birth
  date and the instant of evaluation. The parser stores the elapsed days divided by 365,
  which runs ahead by one day for each 29 February lived: for a birth on 1 January 2000
  and the instant 25 December 2026, 10:30, it stores 27, seven days before the 27th
  birthday, when 26 full years have passed.
\<close>

theorem edad_adelantada:
  "(case parsear_dni hoy_ejemplo ''01012000'' of Inl e \<Rightarrow> None | Inr d \<Rightarrow> edad d) = Some 27 \<and>
   (case parsear_dni hoy_ejemplo ''01012000'' of Inl e \<Rightarrow> None | Inr d \<Rightarrow> fecha_nacimiento d) =
     Some ''01/01/2000'' \<and>
   anios_cumplidos hoy_ejemplo
     \<lparr>year = 2000, month = 1, day = 1, hour = 0, minute = 0, second = 0, microsecond = 0\<rparr> = 26"
  by code_simp

section \<open>The letters of surnames and given names\<close>

text \<open>
  C3. The claim is that a surname or given-names line with anything but capital letters
  and spaces is rejected and its field left out. The two surname blocks do test the line
  against the letters pattern, the given-names block stores the line untested: after the
  label \<open>PRE NOMBRES\<close> the line \<open>juan1\<close> is stored as the given names, while after
  either surname label the same line is rejected.
\<close>

theorem nombres_sin_validar:
  "(case parsear_dni hoy_ejemplo (''PRE NOMBRES'' @ [CHR 0x0A] @ ''juan1'') of
      Inl e \<Rightarrow> None | Inr d \<Rightarrow> nombres d) = Some ''juan1'' \<and>
   (case parsear_dni hoy_ejemplo (''PRIMER APELLIDO'' @ [CHR 0x0A] @ ''juan1'') of
      Inl e \<Rightarrow> Some [] | Inr d \<Rightarrow> apellido_paterno d) = None \<and>
   (case parsear_dni hoy_ejemplo (''SEGUNDO APELLIDO'' @ [CHR 0x0A] @ ''juan1'') of
      Inl e \<Rightarrow> Some [] | Inr d \<Rightarrow> apellido_materno d) = None"
  by code_simp

section \<open>Matching of the patterns\<close>

lemma lastp_Nil [simp]: "lastp p [] = p"
  by (simp add: lastp_def)

lemma lastp_Cons [simp]: "lastp p (c # w) = lastp (Some c) w"
  by (simp add: lastp_def)

lemma lastp_append [simp]: "lastp p (u @ w) = lastp (lastp p u) w"
  by (simp add: lastp_def)

lemma rmatch_ones:
  "length w = length css \<Longrightarrow>
   rmatch (map One css @ es) p (w @ r) g =
     (if list_all2 in_cset css w then rmatch es (lastp p w) r g else None)"
proof (induction css arbitrary: w p)
  case Nil
  then show ?case by simp
next
  case (Cons cs css)
  then obtain c w' where w: "w = c # w'" and l: "length w' = length css"
    by (cases w) auto
  show ?case
    using Cons.IH[OF l] by (simp add: w)
qed

lemma rmatch_ones_short:
  "length s < length css \<Longrightarrow> rmatch (map One css @ es) p s g = None"
proof (induction css arbitrary: s p)
  case Nil
  then show ?case by simp
next
  case (Cons cs css)
  then show ?case by (cases s) auto
qed

lemma rmatch_ones_take:
  "rmatch (map One css @ es) p s g =
     (if length css \<le> length s \<and> list_all2 in_cset css (take (length css) s)
      then rmatch es (lastp p (take (length css) s)) (drop (length css) s) g else None)"
proof (cases "length css \<le> length s")
  case True
  then have "length (take (length css) s) = length css" by simp
  from rmatch_ones[OF this, of es p "drop (length css) s" g] True
  show ?thesis by simp
next
  case False
  then show ?thesis by (simp add: rmatch_ones_short)
qed

lemma rmatch_star_skip:
  assumes "\<And>c s' p'. in_cset cs c \<Longrightarrow> rmatch es p' (c # s') g = None"
  shows "rmatch (Star cs # es) p s g =
           rmatch es (lastp p (takeWhile (in_cset cs) s)) (dropWhile (in_cset cs) s) g"
proof (induction s arbitrary: p)
  case Nil
  then show ?case by simp
next
  case (Cons c s)
  show ?case
  proof (cases "in_cset cs c")
    case True
    have "rmatch (Star cs # es) p (c # s) g = rmatch (Star cs # es) (Some c) s g"
      using True assms[OF True, of p s] by (simp split: option.splits)
    then show ?thesis using True Cons.IH[of "Some c"] by simp
  next
    case False
    then show ?thesis by simp
  qed
qed

lemma search_from_None:
  "search_from es p s = None \<longleftrightarrow>
     (\<forall>pre post. s = pre @ post \<longrightarrow> rmatch es (lastp p pre) post NoGrp = None)"
proof (induction s arbitrary: p)
  case Nil
  then show ?case by simp
next
  case (Cons c s)
  show ?case
  proof
    assume a: "search_from es p (c # s) = None"
    then have h: "rmatch es p (c # s) NoGrp = None" and t: "search_from es (Some c) s = None"
      by (simp_all split: option.splits)
    show "\<forall>pre post. c # s = pre @ post \<longrightarrow> rmatch es (lastp p pre) post NoGrp = None"
    proof (intro allI impI)
      fix pre post assume e: "c # s = pre @ post"
      show "rmatch es (lastp p pre) post NoGrp = None"
      proof (cases pre)
        case Nil
        then show ?thesis using e h by simp
      next
        case (Cons a pre')
        then have "s = pre' @ post" "a = c" using e by auto
        then show ?thesis using t Cons.IH[of "Some c"] Cons by simp
      qed
    qed
  next
    assume a: "\<forall>pre post. c # s = pre @ post \<longrightarrow> rmatch es (lastp p pre) post NoGrp = None"
    then have h: "rmatch es p (c # s) NoGrp = None"
      by (metis append_Nil lastp_Nil)
    have "\<forall>pre post. s = pre @ post \<longrightarrow> rmatch es (lastp (Some c) pre) post NoGrp = None"
    proof (intro allI impI)
      fix pre post assume "s = pre @ post"
      then have "c # s = (c # pre) @ post" by simp
      from a[rule_format, OF this] show "rmatch es (lastp (Some c) pre) post NoGrp = None" by simp
    qed
    then have "search_from es (Some c) s = None" using Cons.IH by blast
    then show "search_from es p (c # s) = None" using h by simp
  qed
qed

lemma search_from_Some:
  "search_from es p s = Some r \<Longrightarrow>
   \<exists>pre post. s = pre @ post \<and> rmatch es (lastp p pre) post NoGrp = Some r \<and>
     (\<forall>pre' post'. s = pre' @ post' \<and> length pre' < length pre \<longrightarrow>
        rmatch es (lastp p pre') post' NoGrp = None)"
proof (induction s arbitrary: p)
  case Nil
  then show ?case by simp
next
  case (Cons c s)
  show ?case
  proof (cases "rmatch es p (c # s) NoGrp")
    case (Some r')
    then have "r' = r" using Cons.prems by simp
    then have "c # s = [] @ (c # s) \<and> rmatch es (lastp p []) (c # s) NoGrp = Some r \<and>
      (\<forall>pre' post'. c # s = pre' @ post' \<and> length pre' < length ([]::string) \<longrightarrow>
        rmatch es (lastp p pre') post' NoGrp = None)"
      using Some by simp
    then show ?thesis by blast
  next
    case None
    then have "search_from es (Some c) s = Some r" using Cons.prems by simp
    from Cons.IH[OF this] obtain pre post where
      e: "s = pre @ post" and m: "rmatch es (lastp (Some c) pre) post NoGrp = Some r" and
      f: "\<forall>pre' post'. s = pre' @ post' \<and> length pre' < length pre \<longrightarrow>
        rmatch es (lastp (Some c) pre') post' NoGrp = None"
      by blast
    have "\<forall>pre' post'. c # s = pre' @ post' \<and> length pre' < length (c # pre) \<longrightarrow>
        rmatch es (lastp p pre') post' NoGrp = None"
    proof (intro allI impI)
      fix pre' post' assume a: "c # s = pre' @ post' \<and> length pre' < length (c # pre)"
      show "rmatch es (lastp p pre') post' NoGrp = None"
      proof (cases pre')
        case Nil
        then show ?thesis using a None by simp
      next
        case (Cons x q)
        then have "s = q @ post'" "x = c" "length q < length pre" using a by auto
        then show ?thesis using f Cons by simp
      qed
    qed
    moreover have "c # s = (c # pre) @ post" using e by simp
    moreover have "rmatch es (lastp p (c # pre)) post NoGrp = Some r" using m by simp
    ultimately show ?thesis by blast
  qed
qed

lemma in_cset_simps [simp]:
  "in_cset [] c = False"
  "in_cset (i # cs) c = (in_citem i c \<or> in_cset cs c)"
  by (simp_all add: in_cset_def)

lemma list_all2_replicate:
  "list_all2 P (replicate n x) w \<longleftrightarrow> length w = n \<and> list_all (P x) w"
proof (induction n arbitrary: w)
  case 0
  then show ?case by auto
next
  case (Suc n)
  then show ?case by (cases w) auto
qed

lemma list_all2_lit_i:
  "list_all2 in_cset (map (\<lambda>c. [LitI c]) w) u \<longleftrightarrow> map to_lower u = map to_lower w"
proof (induction w arbitrary: u)
  case Nil
  then show ?case by auto
next
  case (Cons a w)
  then show ?case by (cases u) simp_all
qed

lemma list_all2_lit:
  "list_all2 in_cset (map (\<lambda>c. [Lit c]) w) u \<longleftrightarrow> u = w"
proof (induction w arbitrary: u)
  case Nil
  then show ?case by auto
next
  case (Cons a w)
  then show ?case by (cases u) simp_all
qed

lemma rmatch_lit_i:
  "rmatch (lit_i w @ es) p s g =
     (if length w \<le> length s \<and> map to_lower (take (length w) s) = map to_lower w
      then rmatch es (lastp p (take (length w) s)) (drop (length w) s) g else None)"
proof -
  have e: "lit_i w = map One (map (\<lambda>c. [LitI c]) w)"
    by (simp add: lit_i_def)
  show ?thesis
    unfolding e rmatch_ones_take list_all2_lit_i by simp
qed

lemma rmatch_lit:
  "rmatch (lit w @ es) p s g =
     (if length w \<le> length s \<and> take (length w) s = w
      then rmatch es (lastp p (take (length w) s)) (drop (length w) s) g else None)"
proof -
  have e: "lit w = map One (map (\<lambda>c. [Lit c]) w)"
    by (simp add: lit_def)
  show ?thesis
    unfolding e rmatch_ones_take list_all2_lit by simp
qed

lemma rmatch_rep:
  "rmatch (rep n cs @ es) p s g =
     (if n \<le> length s \<and> list_all (in_cset cs) (take n s)
      then rmatch es (lastp p (take n s)) (drop n s) g else None)"
proof -
  have e: "rep n cs = map One (replicate n cs)"
    by (simp add: rep_def)
  show ?thesis
    unfolding e rmatch_ones_take list_all2_replicate by auto
qed

lemma rmatch_group_rep:
  "rmatch (GOpen # rep n cs @ GClose # es) p s g =
     (if n \<le> length s \<and> list_all (in_cset cs) (take n s)
      then rmatch es (lastp p (take n s)) (drop n s) (Captured (take n s)) else None)"
proof -
  have "rmatch (GOpen # rep n cs @ GClose # es) p s g = rmatch (rep n cs @ GClose # es) p s (Opened s)"
    by simp
  also have "\<dots> = (if n \<le> length s \<and> list_all (in_cset cs) (take n s)
      then rmatch (GClose # es) (lastp p (take n s)) (drop n s) (Opened s) else None)"
    by (rule rmatch_rep)
  also have "\<dots> = (if n \<le> length s \<and> list_all (in_cset cs) (take n s)
      then rmatch es (lastp p (take n s)) (drop n s) (Captured (take n s)) else None)"
    by (simp add: min_def)
  finally show ?thesis .
qed

lemma rmatch_group_rep_fails:
  "\<not> in_cset cs c \<Longrightarrow> rmatch (GOpen # rep (Suc n) cs @ es) p (c # s) g = None"
  by (simp add: rep_def)

lemma space_not_decimal: "is_space c \<Longrightarrow> \<not> is_decimal c"
  by (auto simp: is_space_def is_decimal_def)

lemma pat_dni_alt:
  "pat_dni = lit_i ''DNI'' @ (Star [Space] # (GOpen # rep 8 [Digit] @ GClose # []))"
  by (simp add: pat_dni_def)

lemma rmatch_cola_dni:
  "rmatch (Star [Space] # (GOpen # rep 8 [Digit] @ GClose # [])) q u NoGrp =
     (let r = dropWhile is_space u in
      if 8 \<le> length r \<and> list_all is_decimal (take 8 r)
      then Some (Captured (take 8 r), lastp (lastp q (takeWhile is_space u)) (take 8 r), drop 8 r)
      else None)"
proof -
  have sp: "in_cset [Space] = is_space" and dg: "in_cset [Digit] = is_decimal"
    by (auto simp: fun_eq_iff)
  have fails: "\<And>c s' p'. in_cset [Space] c \<Longrightarrow>
      rmatch (GOpen # rep 8 [Digit] @ GClose # []) p' (c # s') NoGrp = None"
  proof -
    fix c s' p' assume "in_cset [Space] c"
    then have "\<not> in_cset [Digit] c" by (simp add: space_not_decimal)
    from rmatch_group_rep_fails[OF this, of 7] show
      "rmatch (GOpen # rep 8 [Digit] @ GClose # []) p' (c # s') NoGrp = None"
      by simp
  qed
  have "rmatch (Star [Space] # (GOpen # rep 8 [Digit] @ GClose # [])) q u NoGrp =
        rmatch (GOpen # rep 8 [Digit] @ GClose # []) (lastp q (takeWhile (in_cset [Space]) u))
          (dropWhile (in_cset [Space]) u) NoGrp"
    by (rule rmatch_star_skip[OF fails])
  also have "\<dots> = (let r = dropWhile is_space u in
      if 8 \<le> length r \<and> list_all is_decimal (take 8 r)
      then Some (Captured (take 8 r), lastp (lastp q (takeWhile is_space u)) (take 8 r), drop 8 r)
      else None)"
    unfolding rmatch_group_rep sp dg by (simp add: Let_def)
  finally show ?thesis .
qed

lemma rmatch_pat_dni:
  "rmatch pat_dni p s NoGrp =
     (if 3 \<le> length s \<and> map to_lower (take 3 s) = map to_lower ''DNI'' then
        (let r = dropWhile is_space (drop 3 s) in
         if 8 \<le> length r \<and> list_all is_decimal (take 8 r)
         then Some (Captured (take 8 r),
                    lastp (lastp (lastp p (take 3 s)) (takeWhile is_space (drop 3 s))) (take 8 r),
                    drop 8 r)
         else None)
      else None)"
proof -
  have "rmatch pat_dni p s NoGrp =
     (if length ''DNI'' \<le> length s \<and> map to_lower (take (length ''DNI'') s) = map to_lower ''DNI''
      then rmatch (Star [Space] # (GOpen # rep 8 [Digit] @ GClose # []))
             (lastp p (take (length ''DNI'') s)) (drop (length ''DNI'') s) NoGrp
      else None)"
    unfolding pat_dni_alt by (rule rmatch_lit_i)
  also have "length ''DNI'' = 3" by simp
  finally show ?thesis unfolding rmatch_cola_dni by simp
qed

lemma search_grupo_Some:
  assumes q: "\<And>p s g. (\<exists>r. rmatch es p s NoGrp = Some r \<and> group1 r = g) = Q s g"
    and s: "map_option group1 (re_search es t) = Some g"
  shows "\<exists>pre post. t = pre @ post \<and> Q post g \<and>
           (\<forall>pre' post' g'. t = pre' @ post' \<and> length pre' < length pre \<longrightarrow> \<not> Q post' g')"
proof -
  from s obtain r where r: "search_from es None t = Some r" "group1 r = g"
    by (auto simp: re_search_def)
  from search_from_Some[OF r(1)] obtain pre post where pp: "t = pre @ post"
    "rmatch es (lastp None pre) post NoGrp = Some r"
    and left: "\<forall>pre' post'. t = pre' @ post' \<and> length pre' < length pre \<longrightarrow>
                 rmatch es (lastp None pre') post' NoGrp = None"
    by blast
  have "Q post g"
    using q[of "lastp None pre" post g] pp(2) r(2) by simp
  moreover have "\<forall>pre' post' g'. t = pre' @ post' \<and> length pre' < length pre \<longrightarrow> \<not> Q post' g'"
  proof (intro allI impI)
    fix pre' post' g'
    assume "t = pre' @ post' \<and> length pre' < length pre"
    with left have "rmatch es (lastp None pre') post' NoGrp = None" by blast
    then show "\<not> Q post' g'"
      using q[of "lastp None pre'" post' g'] by simp
  qed
  ultimately show ?thesis using pp(1) by blast
qed

lemma search_grupo_None:
  assumes q: "\<And>p s g. (\<exists>r. rmatch es p s NoGrp = Some r \<and> group1 r = g) = Q s g"
  shows "map_option group1 (re_search es t) = None \<longleftrightarrow>
           (\<forall>pre post g. t = pre @ post \<longrightarrow> \<not> Q post g)"
proof -
  have n: "\<And>p s. rmatch es p s NoGrp = None \<longleftrightarrow> (\<forall>g. \<not> Q s g)"
  proof -
    fix p s
    show "rmatch es p s NoGrp = None \<longleftrightarrow> (\<forall>g. \<not> Q s g)"
    proof (cases "rmatch es p s NoGrp")
      case None
      then show ?thesis using q[of p s] by simp
    next
      case (Some r)
      then have "Q s (group1 r)" using q[of p s "group1 r"] by simp
      with Some show ?thesis by auto
    qed
  qed
  show ?thesis
    unfolding re_search_def map_option_is_None search_from_None n by blast
qed

lemma dropWhile_tras:
  "list_all P ws \<Longrightarrow> g \<noteq> [] \<Longrightarrow> \<not> P (hd g) \<Longrightarrow> dropWhile P (ws @ g @ post) = g @ post"
  by (induction ws) (simp_all, cases g, simp_all)

lemma takeWhile_tras:
  "list_all P ws \<Longrightarrow> g \<noteq> [] \<Longrightarrow> \<not> P (hd g) \<Longrightarrow> takeWhile P (ws @ g @ post) = ws"
  by (induction ws) (simp_all, cases g, simp_all)

lemma lower_dni: "map to_lower ''DNI'' = ''dni''"
  by code_simp

section \<open>The document number\<close>

lemma pat_dni_aqui_1:
  assumes r: "rmatch pat_dni p s NoGrp = Some r" "group1 r = g"
  shows "ocurre_dni [] g s"
proof -
  define u where "u = dropWhile is_space (drop 3 s)"
  from r(1) have c: "3 \<le> length s" "map to_lower (take 3 s) = ''dni''"
    "8 \<le> length u" "list_all is_decimal (take 8 u)"
    and rr: "fst r = Captured (take 8 u)"
    unfolding rmatch_pat_dni lower_dni u_def[symmetric] Let_def
    by (auto split: if_splits)
  from rr r(2) have g: "g = take 8 u" by (simp add: group1_def)
  have "s = take 3 s @ drop 3 s" by simp
  also have "drop 3 s = takeWhile is_space (drop 3 s) @ u"
    by (simp add: u_def)
  also have "u = g @ drop 8 u" by (simp add: g)
  finally have e1: "s = [] @ take 3 s @ takeWhile is_space (drop 3 s) @ g @ drop 8 u" by simp
  have e2: "list_all is_space (takeWhile is_space (drop 3 s))"
    by (simp add: list_all_iff) (meson set_takeWhileD)
  have e3: "length g = 8" and e4: "list_all is_decimal g"
    using c(3,4) by (simp_all add: g)
  show "ocurre_dni [] g s"
    unfolding ocurre_dni_def
    apply (rule exI[of _ "take 3 s"])
    apply (rule exI[of _ "takeWhile is_space (drop 3 s)"])
    apply (rule exI[of _ "drop 8 u"])
    apply (intro conjI)
        apply (rule e1)
       apply (rule c(2))
      apply (rule e2)
     apply (rule e3)
    apply (rule e4)
    done
qed

lemma pat_dni_aqui_2:
  assumes "ocurre_dni [] g s"
  shows "\<exists>r. rmatch pat_dni p s NoGrp = Some r \<and> group1 r = g"
proof -
  from assms have "\<exists>k ws post. s = k @ ws @ g @ post \<and> map to_lower k = ''dni'' \<and>
        list_all is_space ws \<and> length g = 8 \<and> list_all is_decimal g"
    unfolding ocurre_dni_def append_Nil .
  then obtain k ws post where s: "s = k @ ws @ g @ post" and k: "map to_lower k = ''dni''"
    and ws: "list_all is_space ws" and g: "length g = 8" "list_all is_decimal g"
    by (elim exE conjE)
  from k have "length (map to_lower k) = length ''dni''" by (rule arg_cong)
  then have lk: "length k = 3" by simp
  from g have gne: "g \<noteq> []" by auto
  with g(2) have "is_decimal (hd g)" by (cases g) simp_all
  then have ns: "\<not> is_space (hd g)" using space_not_decimal by blast
  have t3: "take 3 s = k" and d3: "drop 3 s = ws @ g @ post"
    using lk by (simp_all add: s)
  have u: "dropWhile is_space (drop 3 s) = g @ post"
    unfolding d3 by (rule dropWhile_tras[OF ws gne ns])
  have l3: "3 \<le> length s" using lk by (simp add: s)
  have c1: "3 \<le> length s \<and> map to_lower (take 3 s) = ''dni''"
    unfolding t3 using l3 k by (rule conjI)
  have c2: "8 \<le> length (g @ post) \<and> list_all is_decimal (take 8 (g @ post))"
    using g by simp
  have "rmatch pat_dni p s NoGrp =
          Some (Captured (take 8 (g @ post)),
                lastp (lastp (lastp p (take 3 s)) (takeWhile is_space (drop 3 s))) (take 8 (g @ post)),
                drop 8 (g @ post))"
    unfolding rmatch_pat_dni lower_dni u Let_def if_P[OF c1] if_P[OF c2] ..
  then show ?thesis
    using g(1) by (simp add: group1_def)
qed

lemma pat_dni_aqui:
  "(\<exists>r. rmatch pat_dni p s NoGrp = Some r \<and> group1 r = g) = ocurre_dni [] g s"
  using pat_dni_aqui_1 pat_dni_aqui_2 by blast

lemma ocurre_dniI:
  "t = pre @ k @ ws @ ds @ post \<Longrightarrow> map to_lower k = ''dni'' \<Longrightarrow> list_all is_space ws \<Longrightarrow>
   length ds = 8 \<Longrightarrow> list_all is_decimal ds \<Longrightarrow> ocurre_dni pre ds t"
  unfolding ocurre_dni_def
  by (rule exI[of _ k], rule exI[of _ ws], rule exI[of _ post], intro conjI)

lemma ocurre_dniE:
  assumes "ocurre_dni pre ds t"
  obtains k ws post where "t = pre @ k @ ws @ ds @ post" "map to_lower k = ''dni''"
    "list_all is_space ws" "length ds = 8" "list_all is_decimal ds"
  using assms unfolding ocurre_dni_def by (elim exE conjE)

lemma ocurre_dni_pre:
  "ocurre_dni pre g t \<longleftrightarrow> (\<exists>post. t = pre @ post \<and> ocurre_dni [] g post)"
proof
  assume "ocurre_dni pre g t"
  then obtain k ws post where e: "t = pre @ k @ ws @ g @ post" and r: "map to_lower k = ''dni''"
    "list_all is_space ws" "length g = 8" "list_all is_decimal g"
    by (rule ocurre_dniE)
  have "k @ ws @ g @ post = [] @ k @ ws @ g @ post" by simp
  then have "ocurre_dni [] g (k @ ws @ g @ post)"
    using r by (rule ocurre_dniI)
  with e show "\<exists>post. t = pre @ post \<and> ocurre_dni [] g post"
    by (intro exI[of _ "k @ ws @ g @ post"] conjI)
next
  assume "\<exists>post. t = pre @ post \<and> ocurre_dni [] g post"
  then obtain p where t: "t = pre @ p" and o: "ocurre_dni [] g p"
    by (elim exE conjE)
  from o obtain k ws post where e: "p = [] @ k @ ws @ g @ post" and r: "map to_lower k = ''dni''"
    "list_all is_space ws" "length g = 8" "list_all is_decimal g"
    by (rule ocurre_dniE)
  have "t = pre @ k @ ws @ g @ post"
    unfolding t e by simp
  then show "ocurre_dni pre g t"
    using r by (rule ocurre_dniI)
qed

lemma ocurre_dni_largo: "ocurre_dni pre g t \<Longrightarrow> length g = 8 \<and> list_all is_decimal g"
  by (erule ocurre_dniE) (rule conjI)

lemma dni_raw_None: "dni_raw t = None \<longleftrightarrow> (\<forall>pre g. \<not> ocurre_dni pre g t)"
proof -
  have "dni_raw t = None \<longleftrightarrow> (\<forall>pre post g. t = pre @ post \<longrightarrow> \<not> ocurre_dni [] g post)"
    unfolding dni_raw_def by (rule search_grupo_None[of pat_dni, OF pat_dni_aqui])
  also have "\<dots> \<longleftrightarrow> (\<forall>pre g. \<not> ocurre_dni pre g t)"
    unfolding ocurre_dni_pre[of _ _ t] by blast
  finally show ?thesis .
qed

lemma dni_raw_Some:
  assumes "dni_raw t = Some g"
  shows "\<exists>pre. ocurre_dni pre g t \<and> (\<forall>pre' g'. ocurre_dni pre' g' t \<longrightarrow> length pre \<le> length pre')"
proof -
  from search_grupo_Some[of pat_dni, OF pat_dni_aqui assms[unfolded dni_raw_def]]
  obtain pre post where t: "t = pre @ post" and o: "ocurre_dni [] g post"
    and l: "\<forall>pre' post' g'. t = pre' @ post' \<and> length pre' < length pre \<longrightarrow> \<not> ocurre_dni [] g' post'"
    by blast
  have "ocurre_dni pre g t"
    unfolding ocurre_dni_pre[of pre g t] using t o by blast
  moreover have "\<forall>pre' g'. ocurre_dni pre' g' t \<longrightarrow> length pre \<le> length pre'"
  proof (intro allI impI)
    fix pre' g'
    assume "ocurre_dni pre' g' t"
    then obtain post' where p: "t = pre' @ post'" "ocurre_dni [] g' post'"
      unfolding ocurre_dni_pre[of pre' g' t] by blast
    show "length pre \<le> length pre'"
    proof (rule ccontr)
      assume "\<not> length pre \<le> length pre'"
      then have "length pre' < length pre" by simp
      with l p(1) have "\<not> ocurre_dni [] g' post'" by blast
      with p(2) show False by blast
    qed
  qed
  ultimately show ?thesis by blast
qed

lemma ocurre_mrzI:
  "t = pre @ ''PER'' @ ds @ post \<Longrightarrow> length ds = 8 \<Longrightarrow> list_all is_decimal ds \<Longrightarrow> ocurre_mrz pre ds t"
  unfolding ocurre_mrz_def
  by (rule exI[of _ post], intro conjI)

lemma ocurre_mrzE:
  assumes "ocurre_mrz pre ds t"
  obtains post where "t = pre @ ''PER'' @ ds @ post" "length ds = 8" "list_all is_decimal ds"
  using assms unfolding ocurre_mrz_def by (elim exE conjE)

lemma pat_mrz_alt: "pat_mrz = lit ''PER'' @ (GOpen # rep 8 [Digit] @ GClose # [])"
  by (simp add: pat_mrz_def)

lemma rmatch_pat_mrz:
  "rmatch pat_mrz p s NoGrp =
     (if 3 \<le> length s \<and> take 3 s = ''PER'' \<and> 8 \<le> length (drop 3 s) \<and>
         list_all is_decimal (take 8 (drop 3 s))
      then Some (Captured (take 8 (drop 3 s)),
                 lastp (lastp p (take 3 s)) (take 8 (drop 3 s)), drop 8 (drop 3 s))
      else None)"
proof -
  have dg: "in_cset [Digit] = is_decimal"
    by (auto simp: fun_eq_iff)
  have "rmatch pat_mrz p s NoGrp =
     (if length ''PER'' \<le> length s \<and> take (length ''PER'') s = ''PER''
      then rmatch (GOpen # rep 8 [Digit] @ GClose # [])
             (lastp p (take (length ''PER'') s)) (drop (length ''PER'') s) NoGrp
      else None)"
    unfolding pat_mrz_alt by (rule rmatch_lit)
  also have "length ''PER'' = 3" by simp
  finally show ?thesis unfolding rmatch_group_rep dg by simp
qed

lemma pat_mrz_aqui_1:
  assumes r: "rmatch pat_mrz p s NoGrp = Some r" "group1 r = g"
  shows "ocurre_mrz [] g s"
proof -
  define u where "u = drop 3 s"
  from r(1) have c: "3 \<le> length s" "take 3 s = ''PER''"
    "8 \<le> length u" "list_all is_decimal (take 8 u)"
    and rr: "fst r = Captured (take 8 u)"
    unfolding rmatch_pat_mrz u_def[symmetric]
    by (auto split: if_splits)
  from rr r(2) have g: "g = take 8 u" by (simp add: group1_def)
  have "s = take 3 s @ u" by (simp add: u_def)
  also have "u = g @ drop 8 u" by (simp add: g)
  finally have e1: "s = [] @ ''PER'' @ g @ drop 8 u" unfolding c(2) by simp
  have e3: "length g = 8" and e4: "list_all is_decimal g"
    using c(3,4) by (simp_all add: g)
  from e1 e3 e4 show ?thesis by (rule ocurre_mrzI)
qed

lemma pat_mrz_aqui_2:
  assumes "ocurre_mrz [] g s"
  shows "\<exists>r. rmatch pat_mrz p s NoGrp = Some r \<and> group1 r = g"
proof -
  from assms obtain post where s: "s = [] @ ''PER'' @ g @ post"
    and g: "length g = 8" "list_all is_decimal g"
    by (rule ocurre_mrzE)
  have t3: "take 3 s = ''PER''" and d3: "drop 3 s = g @ post"
    by (simp_all add: s)
  have c: "3 \<le> length s \<and> take 3 s = ''PER'' \<and> 8 \<le> length (drop 3 s) \<and>
         list_all is_decimal (take 8 (drop 3 s))"
    unfolding d3 using g by (simp add: s)
  have "rmatch pat_mrz p s NoGrp =
          Some (Captured (take 8 (drop 3 s)),
                 lastp (lastp p (take 3 s)) (take 8 (drop 3 s)), drop 8 (drop 3 s))"
    unfolding rmatch_pat_mrz if_P[OF c] ..
  then show ?thesis
    unfolding d3 using g(1) by (simp add: group1_def)
qed

lemma pat_mrz_aqui:
  "(\<exists>r. rmatch pat_mrz p s NoGrp = Some r \<and> group1 r = g) = ocurre_mrz [] g s"
  using pat_mrz_aqui_1 pat_mrz_aqui_2 by blast

lemma ocurre_mrz_pre:
  "ocurre_mrz pre g t \<longleftrightarrow> (\<exists>post. t = pre @ post \<and> ocurre_mrz [] g post)"
proof
  assume "ocurre_mrz pre g t"
  then obtain post where e: "t = pre @ ''PER'' @ g @ post" and r: "length g = 8" "list_all is_decimal g"
    by (rule ocurre_mrzE)
  have "''PER'' @ g @ post = [] @ ''PER'' @ g @ post" by simp
  then have "ocurre_mrz [] g (''PER'' @ g @ post)"
    using r by (rule ocurre_mrzI)
  with e show "\<exists>post. t = pre @ post \<and> ocurre_mrz [] g post"
    by (intro exI[of _ "''PER'' @ g @ post"] conjI)
next
  assume "\<exists>post. t = pre @ post \<and> ocurre_mrz [] g post"
  then obtain p where t: "t = pre @ p" and o: "ocurre_mrz [] g p"
    by (elim exE conjE)
  from o obtain post where e: "p = [] @ ''PER'' @ g @ post" and r: "length g = 8" "list_all is_decimal g"
    by (rule ocurre_mrzE)
  have "t = pre @ ''PER'' @ g @ post"
    unfolding t e by simp
  then show "ocurre_mrz pre g t"
    using r by (rule ocurre_mrzI)
qed

lemma mrz_dni_None: "mrz_dni t = None \<longleftrightarrow> (\<forall>pre g. \<not> ocurre_mrz pre g t)"
proof -
  have "mrz_dni t = None \<longleftrightarrow> (\<forall>pre post g. t = pre @ post \<longrightarrow> \<not> ocurre_mrz [] g post)"
    unfolding mrz_dni_def by (rule search_grupo_None[of pat_mrz, OF pat_mrz_aqui])
  also have "\<dots> \<longleftrightarrow> (\<forall>pre g. \<not> ocurre_mrz pre g t)"
    unfolding ocurre_mrz_pre[of _ _ t] by blast
  finally show ?thesis .
qed

lemma mrz_dni_Some:
  assumes "mrz_dni t = Some g"
  shows "\<exists>pre. ocurre_mrz pre g t \<and> (\<forall>pre' g'. ocurre_mrz pre' g' t \<longrightarrow> length pre \<le> length pre')"
proof -
  from search_grupo_Some[of pat_mrz, OF pat_mrz_aqui assms[unfolded mrz_dni_def]]
  obtain pre post where t: "t = pre @ post" and o: "ocurre_mrz [] g post"
    and l: "\<forall>pre' post' g'. t = pre' @ post' \<and> length pre' < length pre \<longrightarrow> \<not> ocurre_mrz [] g' post'"
    by blast
  have "ocurre_mrz pre g t"
    unfolding ocurre_mrz_pre[of pre g t] using t o by blast
  moreover have "\<forall>pre' g'. ocurre_mrz pre' g' t \<longrightarrow> length pre \<le> length pre'"
  proof (intro allI impI)
    fix pre' g'
    assume "ocurre_mrz pre' g' t"
    then obtain post' where p: "t = pre' @ post'" "ocurre_mrz [] g' post'"
      unfolding ocurre_mrz_pre[of pre' g' t] by blast
    show "length pre \<le> length pre'"
    proof (rule ccontr)
      assume "\<not> length pre \<le> length pre'"
      then have "length pre' < length pre" by simp
      with l p(1) have "\<not> ocurre_mrz [] g' post'" by blast
      with p(2) show False by blast
    qed
  qed
  ultimately show ?thesis by blast
qed

lemma parsear_numero_None: "parsear_numero t = None \<longleftrightarrow> dni_raw t = None"
  by (simp add: parsear_numero_def split: option.splits)

lemma parsear_dni_numero: "parsear_dni hoy t = Inr d \<Longrightarrow> dni d = parsear_numero t"
  by (auto simp: parsear_dni_def Let_def split: sum.splits)


text \<open>
  C5. The claim is that a document number is recognised exactly when the text has \<open>DNI\<close>,
  in either case, followed by white space and exactly eight digits. The pattern is
  \<open>DNI\s*(\d{8})\<close>: the white space may be missing, and the eight digits need not end
  there. \<open>DNI12345678\<close>, with no white space at all, gives \<open>12345678\<close>, and so does
  \<open>DNI 123456789\<close>, where nine digits follow.
\<close>

theorem dni_sin_espacio:
  "dni_raw ''DNI12345678'' = Some ''12345678'' \<and> \<not> list_ex is_space ''DNI12345678'' \<and>
   dni_raw ''DNI 123456789'' = Some ''12345678'' \<and> list_all is_decimal ''123456789''"
  by code_simp


text \<open>
  C5, as the parser does it. A document number is recognised exactly when the text has
  \<open>DNI\<close>, in either case, followed by white space or none and by at least eight digits;
  the candidate is the first eight of these digits, at the leftmost such place. The key
  \<open>dni\<close> of the record is present exactly then.
\<close>

theorem dni_reconocido:
  "(dni_raw texto \<noteq> None \<longleftrightarrow> (\<exists>pre ds. ocurre_dni pre ds texto)) \<and>
   (\<forall>g. dni_raw texto = Some g \<longrightarrow>
      (\<exists>pre. ocurre_dni pre g texto \<and>
         (\<forall>pre' ds'. ocurre_dni pre' ds' texto \<longrightarrow> length pre \<le> length pre'))) \<and>
   (parsear_numero texto \<noteq> None \<longleftrightarrow> dni_raw texto \<noteq> None) \<and>
   (\<forall>d. parsear_dni hoy texto = Inr d \<longrightarrow> (dni d \<noteq> None \<longleftrightarrow> dni_raw texto \<noteq> None))"
proof (intro conjI allI impI)
  show "dni_raw texto \<noteq> None \<longleftrightarrow> (\<exists>pre ds. ocurre_dni pre ds texto)"
    unfolding dni_raw_None by blast
next
  fix g assume "dni_raw texto = Some g"
  then show "\<exists>pre. ocurre_dni pre g texto \<and>
         (\<forall>pre' ds'. ocurre_dni pre' ds' texto \<longrightarrow> length pre \<le> length pre')"
    by (rule dni_raw_Some)
next
  show "parsear_numero texto \<noteq> None \<longleftrightarrow> dni_raw texto \<noteq> None"
    unfolding parsear_numero_None ..
next
  fix d assume "parsear_dni hoy texto = Inr d"
  then have "dni d = parsear_numero texto" by (rule parsear_dni_numero)
  then show "dni d \<noteq> None \<longleftrightarrow> dni_raw texto \<noteq> None"
    unfolding parsear_numero_None[symmetric] by simp
qed


theorem dni_reconocido_witness:
  "dni_raw ''N. dni  12345678-9'' = Some ''12345678'' \<and>
   (\<exists>pre. ocurre_dni pre ''12345678'' ''N. dni  12345678-9'') \<and>
   parsear_numero ''N. dni  12345678-9'' \<noteq> None"
proof -
  have a: "dni_raw ''N. dni  12345678-9'' = Some ''12345678''"
    by code_simp
  from a dni_reconocido[of "''N. dni  12345678-9''"] show ?thesis
    by blast
qed


section \<open>The machine-readable zone\<close>

text \<open>
  C6. When the candidate of the document number starts with \<open>00\<close>, the text is searched
  for \<open>PER\<close> followed by eight digits. If there is such a place, the document number is
  the eight digits of the leftmost one; if there is none, the candidate is kept. The
  record holds that value. A text with the candidate \<open>00345678\<close> and \<open>PER87654321\<close> gives
  \<open>87654321\<close>.
\<close>

theorem mrz_preferido:
  "(dni_raw texto = Some raw \<and> starts_with ''00'' raw \<longrightarrow>
      ((\<exists>pre ds. ocurre_mrz pre ds texto) \<longrightarrow>
         (\<exists>pre m. parsear_numero texto = Some m \<and> ocurre_mrz pre m texto \<and>
            (\<forall>pre' ds'. ocurre_mrz pre' ds' texto \<longrightarrow> length pre \<le> length pre'))) \<and>
      (\<not> (\<exists>pre ds. ocurre_mrz pre ds texto) \<longrightarrow> parsear_numero texto = Some raw)) \<and>
   (\<forall>d. parsear_dni hoy texto = Inr d \<longrightarrow> dni d = parsear_numero texto) \<and>
   dni_raw (''DNI 00345678'' @ CHR 0x0A # ''I<PER87654321<2'') = Some ''00345678'' \<and>
   parsear_numero (''DNI 00345678'' @ CHR 0x0A # ''I<PER87654321<2'') = Some ''87654321''"
proof (intro conjI allI impI)
  assume a: "dni_raw texto = Some raw \<and> starts_with ''00'' raw"
  assume "\<exists>pre ds. ocurre_mrz pre ds texto"
  then have "mrz_dni texto \<noteq> None"
    unfolding mrz_dni_None by blast
  then obtain m where m: "mrz_dni texto = Some m" by blast
  from a m have "parsear_numero texto = Some m"
    by (simp add: parsear_numero_def)
  with mrz_dni_Some[OF m]
  show "\<exists>pre m. parsear_numero texto = Some m \<and> ocurre_mrz pre m texto \<and>
            (\<forall>pre' ds'. ocurre_mrz pre' ds' texto \<longrightarrow> length pre \<le> length pre')"
    by blast
next
  assume a: "dni_raw texto = Some raw \<and> starts_with ''00'' raw"
  assume "\<not> (\<exists>pre ds. ocurre_mrz pre ds texto)"
  then have "mrz_dni texto = None"
    unfolding mrz_dni_None by blast
  with a show "parsear_numero texto = Some raw"
    by (simp add: parsear_numero_def)
next
  fix d assume "parsear_dni hoy texto = Inr d"
  then show "dni d = parsear_numero texto" by (rule parsear_dni_numero)
next
  show "dni_raw (''DNI 00345678'' @ CHR 0x0A # ''I<PER87654321<2'') = Some ''00345678''"
    by code_simp
next
  show "parsear_numero (''DNI 00345678'' @ CHR 0x0A # ''I<PER87654321<2'') = Some ''87654321''"
    by code_simp
qed

theorem mrz_preferido_witness:
  "dni_raw ''DNI 00345678 PERU'' = Some ''00345678'' \<and> starts_with ''00'' ''00345678'' \<and>
   \<not> (\<exists>pre ds. ocurre_mrz pre ds ''DNI 00345678 PERU'') \<and>
   parsear_numero ''DNI 00345678 PERU'' = Some ''00345678'' \<and>
   dni_raw ''dni 00111222 PER00111333 PER00111444'' = Some ''00111222'' \<and>
   (\<exists>pre ds. ocurre_mrz pre ds ''dni 00111222 PER00111333 PER00111444'') \<and>
   parsear_numero ''dni 00111222 PER00111333 PER00111444'' = Some ''00111333''"
proof -
  have a: "dni_raw ''DNI 00345678 PERU'' = Some ''00345678'' \<and> starts_with ''00'' ''00345678''"
    by code_simp
  have b: "mrz_dni ''DNI 00345678 PERU'' = None"
    by code_simp
  then have nb: "\<not> (\<exists>pre ds. ocurre_mrz pre ds ''DNI 00345678 PERU'')"
    unfolding mrz_dni_None by blast
  have c: "dni_raw ''dni 00111222 PER00111333 PER00111444'' = Some ''00111222'' \<and>
           starts_with ''00'' ''00111222''"
    by code_simp
  have "mrz_dni ''dni 00111222 PER00111333 PER00111444'' \<noteq> None"
    by code_simp
  then have d: "\<exists>pre ds. ocurre_mrz pre ds ''dni 00111222 PER00111333 PER00111444''"
    unfolding mrz_dni_None by blast
  from c d mrz_preferido[of "''dni 00111222 PER00111333 PER00111444''" "''00111222''"]
  obtain pre m where m: "parsear_numero ''dni 00111222 PER00111333 PER00111444'' = Some m"
    "ocurre_mrz pre m ''dni 00111222 PER00111333 PER00111444''"
    by blast
  have "parsear_numero ''dni 00111222 PER00111333 PER00111444'' = Some ''00111333''"
    by code_simp
  with m(1) have e: "parsear_numero ''dni 00111222 PER00111333 PER00111444'' = Some ''00111333''"
    by simp
  from a nb mrz_preferido[of "''DNI 00345678 PERU''" "''00345678''"]
  have "parsear_numero ''DNI 00345678 PERU'' = Some ''00345678''"
    by blast
  with a nb c d e show ?thesis by blast
qed

section \<open>The birth date\<close>

lemma split_on_sin: "sep \<notin> set w \<Longrightarrow> split_on sep w = [w]"
  by (induction w) auto

lemma split_on_append:
  "sep \<notin> set w \<Longrightarrow> split_on sep (w @ sep # r) = w # split_on sep r"
  by (induction w) auto

lemma decimal_no_barra: "list_all is_decimal w \<Longrightarrow> CHR ''/'' \<notin> set w"
  by (induction w) (auto simp: is_decimal_def cp_def)

lemma split_fecha:
  assumes "list_all is_decimal d" "list_all is_decimal m" "list_all is_decimal a"
  shows "split_on (CHR ''/'') (d @ ''/'' @ m @ ''/'' @ a) = [d, m, a]"
proof -
  have "split_on (CHR ''/'') (d @ CHR ''/'' # (m @ CHR ''/'' # a)) =
          d # split_on (CHR ''/'') (m @ CHR ''/'' # a)"
    by (rule split_on_append[OF decimal_no_barra[OF assms(1)]])
  also have "split_on (CHR ''/'') (m @ CHR ''/'' # a) = m # split_on (CHR ''/'') a"
    by (rule split_on_append[OF decimal_no_barra[OF assms(2)]])
  also have "split_on (CHR ''/'') a = [a]"
    by (rule split_on_sin[OF decimal_no_barra[OF assms(3)]])
  finally show ?thesis by simp
qed

lemma py_datetime_Inr:
  "py_datetime y m d = Inr f \<longleftrightarrow>
     valid_ymd y m d \<and>
     f = \<lparr>year = y, month = m, day = d, hour = 0, minute = 0, second = 0, microsecond = 0\<rparr>"
  by (auto simp: py_datetime_def)

lemma buscar_fecha_digitos:
  assumes "length c = 8" "list_all is_decimal c"
  shows "buscar_fecha hoy (c # resto) =
           (if aceptada hoy c then Inr (Some (guardado hoy c)) else buscar_fecha hoy resto)"
proof -
  define d m a where "d = dia_esperado (take 2 c)" and "m = corregir_mes (take 2 (drop 2 c))"
    and "a = corregir_anio (take 4 (drop 4 c))"
  note p = corregir_fecha_partes[OF assms, folded d_def m_def a_def]
  have ne: "d \<noteq> []" "m \<noteq> []" "a \<noteq> []"
    using p by auto
  have dg: "list_all is_decimal d" "list_all is_decimal m" "list_all is_decimal a"
    using p by simp_all
  have cf: "construir_fecha a m d = py_datetime (valor_decimal a) (valor_decimal m) (valor_decimal d)"
    using ne dg by (intro construir_fecha_decimal)
  have sp: "split_on (CHR ''/'') (d @ ''/'' @ m @ ''/'' @ a) = [d, m, a]"
    using dg by (rule split_fecha)
  have co: "corregir_fecha_ocr c =
              (case construir_fecha a m d of
                 Inl e \<Rightarrow> Inr None
               | Inr fecha \<Rightarrow> Inr (Some (d @ ''/'' @ m @ ''/'' @ a)))"
    using p by simp
  show ?thesis
  proof (cases "valid_ymd (valor_decimal a) (valor_decimal m) (valor_decimal d)")
    case False
    then have "construir_fecha a m d = Inl ValueError"
      by (simp add: cf py_datetime_def)
    then have "corregir_fecha_ocr c = Inr None"
      by (simp add: co)
    then show ?thesis
      by (simp add: aceptada_def)
  next
    case True
    define f where "f = \<lparr>year = valor_decimal a, month = valor_decimal m, day = valor_decimal d,
      hour = 0, minute = 0, second = 0, microsecond = 0\<rparr>"
    define t where "t = d @ ''/'' @ m @ ''/'' @ a"
    from True have c1: "construir_fecha a m d = Inr f"
      by (simp add: cf py_datetime_def f_def)
    then have c2: "corregir_fecha_ocr c = Inr (Some t)"
      by (simp add: co t_def)
    have l: "length d = 2" "length m = 2" "length a = 4"
      using p by simp_all
    have pt: "take 2 t = d" "take 2 (drop 3 t) = m" "drop 6 t = a"
      using l by (simp_all add: t_def)
    have fd: "fecha_de t = f"
      by (simp add: fecha_de_def f_def pt)
    have tn: "t \<noteq> []" by (simp add: t_def)
    have sp': "split_on (CHR ''/'') t = [d, m, a]"
      using sp by (simp add: t_def)
    have "buscar_fecha hoy (c # resto) =
            (if 0 \<le> calcular_edad hoy f \<and> calcular_edad hoy f \<le> 120
             then Inr (Some (t, a @ ''-'' @ m @ ''-'' @ d, calcular_edad hoy f))
             else buscar_fecha hoy resto)"
      unfolding buscar_fecha.simps c2 sum.case option.case if_not_P[OF tn] sp' list.case c1 Let_def ..
    then show ?thesis
      by (simp add: aceptada_def guardado_def c2 fd iso_de_def pt)
  qed
qed

lemma buscar_fecha_find:
  "list_all (\<lambda>c. length c = 8 \<and> list_all is_decimal c) xs \<Longrightarrow>
   buscar_fecha hoy xs = Inr (map_option (guardado hoy) (find (aceptada hoy) xs))"
proof (induction xs)
  case Nil
  then show ?case by simp
next
  case (Cons c xs)
  then have c: "length c = 8" "list_all is_decimal c"
    and ih: "buscar_fecha hoy xs = Inr (map_option (guardado hoy) (find (aceptada hoy) xs))"
    by simp_all
  show ?case
    unfolding buscar_fecha_digitos[OF c] ih by simp
qed

lemma decimal_is_word: "is_decimal c \<Longrightarrow> is_word c"
  by (simp add: is_word_def is_alnum_def)

lemma pat_fecha_alt: "pat_fecha = WordB # (GOpen # rep 8 [Digit] @ GClose # [WordB])"
  by (simp add: pat_fecha_def)

lemma rmatch_pat_fecha:
  "rmatch pat_fecha p s NoGrp =
     (if aislada p s then Some (Captured (take 8 s), Some (last (take 8 s)), drop 8 s) else None)"
proof (cases "8 \<le> length s \<and> list_all is_decimal (take 8 s)")
  case False
  have dg: "in_cset [Digit] = is_decimal"
    by (auto simp: fun_eq_iff)
  from False have "rmatch (GOpen # rep 8 [Digit] @ GClose # [WordB]) p s NoGrp = None"
    unfolding rmatch_group_rep dg by simp
  moreover from False have "\<not> aislada p s"
    by (auto simp: aislada_def)
  moreover have "rmatch pat_fecha p s NoGrp =
          (if word_before p \<noteq> word_after s
           then rmatch (GOpen # rep 8 [Digit] @ GClose # [WordB]) p s NoGrp else None)"
    unfolding pat_fecha_alt by (rule rmatch.simps)
  ultimately show ?thesis
    by simp
next
  case True
  have dg: "in_cset [Digit] = is_decimal"
    by (auto simp: fun_eq_iff)
  from True obtain c s' where s: "s = c # s'" by (cases s) auto
  with True have "is_decimal c" by simp
  then have wa: "word_after s"
    by (simp add: s word_after_def decimal_is_word)
  from True have ne: "take 8 s \<noteq> []" by auto
  then have "last (take 8 s) \<in> set (take 8 s)" by (rule last_in_set)
  with True have "is_decimal (last (take 8 s))"
    by (simp add: list_all_iff)
  then have wl: "word_before (Some (last (take 8 s)))"
    by (simp add: word_before_def decimal_is_word)
  have lp: "lastp p (take 8 s) = Some (last (take 8 s))"
    using ne by (simp add: lastp_def)
  have "rmatch (GOpen # rep 8 [Digit] @ GClose # [WordB]) p s NoGrp =
          rmatch [WordB] (Some (last (take 8 s))) (drop 8 s) (Captured (take 8 s))"
    unfolding rmatch_group_rep dg lp using True by simp
  also have "\<dots> = (if \<not> word_after (drop 8 s)
       then Some (Captured (take 8 s), Some (last (take 8 s)), drop 8 s) else None)"
    using wl by simp
  finally have g: "rmatch (GOpen # rep 8 [Digit] @ GClose # [WordB]) p s NoGrp =
      (if \<not> word_after (drop 8 s)
       then Some (Captured (take 8 s), Some (last (take 8 s)), drop 8 s) else None)" .
  have a: "aislada p s \<longleftrightarrow> \<not> word_before p \<and> \<not> word_after (drop 8 s)"
    using True by (simp add: aislada_def)
  have "rmatch pat_fecha p s NoGrp =
          (if word_before p \<noteq> word_after s
           then rmatch (GOpen # rep 8 [Digit] @ GClose # [WordB]) p s NoGrp else None)"
    unfolding pat_fecha_alt by (rule rmatch.simps)
  then show ?thesis
    unfolding g a using wa by simp
qed

lemma candidatos_salta:
  "is_word q \<Longrightarrow> list_all is_word w \<Longrightarrow>
   candidatos_desde (Some q) (w @ r) = candidatos_desde (lastp (Some q) w) r"
proof (induction w arbitrary: q)
  case Nil
  then show ?case by simp
next
  case (Cons x w)
  from Cons.prems(1) have "\<not> aislada (Some q) (x # w @ r)"
    by (simp add: aislada_def word_before_def)
  then have "candidatos_desde (Some q) ((x # w) @ r) = candidatos_desde (Some x) (w @ r)"
    by simp
  also have "\<dots> = candidatos_desde (lastp (Some x) w) r"
    using Cons.prems(2) by (intro Cons.IH) simp_all
  finally show ?case by simp
qed

lemma findall_candidatos: "findall_from pat_fecha p s = candidatos_desde p s"
proof (induction s arbitrary: p rule: length_induct)
  case (1 s)
  show ?case
  proof (cases s)
    case Nil
    have "\<not> aislada p []" by (simp add: aislada_def)
    then show ?thesis
      by (simp add: Nil rmatch_pat_fecha)
  next
    case (Cons c s')
    show ?thesis
    proof (cases "aislada p s")
      case False
      have "findall_from pat_fecha (Some c) s' = candidatos_desde (Some c) s'"
        using 1 by (simp add: Cons)
      with False show ?thesis
        by (simp add: Cons rmatch_pat_fecha)
    next
      case True
      then have l8: "8 \<le> length s" and dg: "list_all is_decimal (take 8 s)"
        by (simp_all add: aislada_def)
      have sh: "length (drop 8 s) < length s"
        using l8 by simp
      then have ih: "findall_from pat_fecha (Some (last (take 8 s))) (drop 8 s) =
                 candidatos_desde (Some (last (take 8 s))) (drop 8 s)"
        using 1 by blast
      have f: "findall_from pat_fecha p s =
                 take 8 s # candidatos_desde (Some (last (take 8 s))) (drop 8 s)"
        using True sh ih by (simp add: Cons rmatch_pat_fecha group1_def)
      from dg have cw: "is_word c" and ww: "list_all is_word (take 7 s')"
        by (simp_all add: Cons list_all_iff decimal_is_word)
      have "candidatos_desde (Some c) s' = candidatos_desde (Some c) (take 7 s' @ drop 7 s')"
        by simp
      also have "\<dots> = candidatos_desde (lastp (Some c) (take 7 s')) (drop 7 s')"
        using cw ww by (rule candidatos_salta)
      also have "lastp (Some c) (take 7 s') = Some (last (take 8 s))"
        by (simp add: Cons lastp_def)
      also have "drop 7 s' = drop 8 s"
        by (simp add: Cons)
      finally have "candidatos_desde p s =
           take 8 s # candidatos_desde (Some (last (take 8 s))) (drop 8 s)"
        using True by (simp add: Cons)
      with f show ?thesis by simp
    qed
  qed
qed

lemma candidatos_digitos:
  "list_all (\<lambda>c. length c = 8 \<and> list_all is_decimal c) (candidatos_desde p s)"
proof (induction s arbitrary: p)
  case Nil
  then show ?case by simp
next
  case (Cons c s)
  have "aislada p (c # s) \<Longrightarrow> length (take 8 (c # s)) = 8 \<and> list_all is_decimal (take 8 (c # s))"
    unfolding aislada_def by (simp add: min_def)
  with Cons show ?case by simp
qed

lemma parsear_fecha_es:
  "parsear_fecha hoy texto =
     Inr (map_option (guardado hoy) (find (aceptada hoy) (candidatos texto)))"
  unfolding parsear_fecha_def re_findall_def findall_candidatos candidatos_def
  by (rule buscar_fecha_find[OF candidatos_digitos])

lemma parsear_dni_es:
  "parsear_dni hoy texto =
     Inr \<lparr>dni = parsear_numero texto,
          apellido_paterno = parsear_apellido_paterno (lineas_de texto),
          apellido_materno = parsear_apellido_materno (lineas_de texto),
          nombres = parsear_nombres (lineas_de texto),
          fecha_nacimiento = map_option (fst \<circ> guardado hoy) (find (aceptada hoy) (candidatos texto)),
          fecha_nacimiento_iso =
            map_option (fst \<circ> snd \<circ> guardado hoy) (find (aceptada hoy) (candidatos texto)),
          edad = map_option (snd \<circ> snd \<circ> guardado hoy) (find (aceptada hoy) (candidatos texto)),
          sexo = parsear_sexo texto,
          sexo_completo =
            map_option (\<lambda>x. if x = ''M'' then ''MASCULINO'' else ''FEMENINO'') (parsear_sexo texto),
          nombre_completo =
            armar_nombre_completo (parsear_nombres (lineas_de texto))
              (parsear_apellido_paterno (lineas_de texto))
              (parsear_apellido_materno (lineas_de texto))\<rparr>"
  unfolding parsear_dni_def Let_def parsear_fecha_es
  by (simp add: option.map_comp comp_def)

lemma parsear_dni_total: "\<exists>d. parsear_dni hoy texto = Inr d"
  unfolding parsear_dni_es by (rule exI) (rule refl)







section \<open>The result of the entry point\<close>

lemma parsear_numero_largo:
  assumes "parsear_numero t = Some x"
  shows "length x = 8"
proof -
  from assms obtain raw where raw: "dni_raw t = Some raw"
    by (auto simp: parsear_numero_def split: option.splits)
  from dni_raw_Some[OF raw] have r8: "length raw = 8"
    using ocurre_dni_largo by blast
  show ?thesis
  proof (cases "mrz_dni t")
    case None
    with assms raw have "x = raw"
      by (simp add: parsear_numero_def split: if_splits)
    with r8 show ?thesis by simp
  next
    case (Some m)
    from mrz_dni_Some[OF Some] obtain pre where "ocurre_mrz pre m t" by blast
    then have "length m = 8" by (rule ocurre_mrzE)
    moreover from assms raw Some have "x = raw \<or> x = m"
      by (simp add: parsear_numero_def split: if_splits)
    ultimately show ?thesis using r8 by blast
  qed
qed


text \<open>
  C7. The parser returns a record for every text: no field that fails to be recognised
  makes it raise. The entry point reaches the parser when the OCR gave at least one block
  of text. When the record then has no document number, the entry point returns the
  error for a document number that was not found, whatever the other fields of the record
  are; otherwise it returns the record, with whatever fields are absent.
\<close>

theorem sin_dni_error:
  "(\<exists>d. parsear_dni hoy texto = Inr d) \<and>
   (\<forall>bs d. bs \<noteq> [] \<and> parsear_dni hoy (join_lines bs) = Inr d \<and> dni d = None \<longrightarrow>
      extraer_datos_dni hoy (Bloques bs) = Error ''No se pudo detectar el DNI en la imagen'') \<and>
   (\<forall>bs d. bs \<noteq> [] \<and> parsear_dni hoy (join_lines bs) = Inr d \<and> dni d \<noteq> None \<longrightarrow>
      extraer_datos_dni hoy (Bloques bs) = Datos d)"
proof (intro conjI allI impI)
  show "\<exists>d. parsear_dni hoy texto = Inr d"
    by (rule parsear_dni_total)
next
  fix bs d
  assume "bs \<noteq> [] \<and> parsear_dni hoy (join_lines bs) = Inr d \<and> dni d = None"
  then show "extraer_datos_dni hoy (Bloques bs) = Error ''No se pudo detectar el DNI en la imagen''"
    by (simp add: extraer_datos_dni_def)
next
  fix bs d
  assume a: "bs \<noteq> [] \<and> parsear_dni hoy (join_lines bs) = Inr d \<and> dni d \<noteq> None"
  then obtain x where x: "dni d = Some x" by blast
  from a have p: "parsear_dni hoy (join_lines bs) = Inr d" by blast
  have "dni d = parsear_numero (join_lines bs)"
    using p by (rule parsear_dni_numero)
  with x have "parsear_numero (join_lines bs) = Some x" by simp
  then have "length x = 8"
    by (rule parsear_numero_largo)
  then have "x \<noteq> []" by auto
  with a x show "extraer_datos_dni hoy (Bloques bs) = Datos d"
    by (simp add: extraer_datos_dni_def)
qed

theorem sin_dni_error_witness:
  "[''PRIMER APELLIDO'', ''PEREZ'', ''PRE NOMBRES'', ''JUAN''] \<noteq> [] \<and>
   parsear_dni hoy_ejemplo (join_lines [''PRIMER APELLIDO'', ''PEREZ'', ''PRE NOMBRES'', ''JUAN'']) =
     Inr \<lparr>dni = None, apellido_paterno = Some ''PEREZ'', apellido_materno = None,
          nombres = Some ''JUAN'', fecha_nacimiento = None, fecha_nacimiento_iso = None,
          edad = None, sexo = None, sexo_completo = None,
          nombre_completo = Some ''JUAN PEREZ''\<rparr> \<and>
   extraer_datos_dni hoy_ejemplo (Bloques [''PRIMER APELLIDO'', ''PEREZ'', ''PRE NOMBRES'', ''JUAN'']) =
     Error ''No se pudo detectar el DNI en la imagen'' \<and>
   [''DNI 12345678'', ''xx''] \<noteq> [] \<and>
   parsear_dni hoy_ejemplo (join_lines [''DNI 12345678'', ''xx'']) =
     Inr \<lparr>dni = Some ''12345678'', apellido_paterno = None, apellido_materno = None,
          nombres = None, fecha_nacimiento = None, fecha_nacimiento_iso = None,
          edad = None, sexo = None, sexo_completo = None, nombre_completo = None\<rparr> \<and>
   extraer_datos_dni hoy_ejemplo (Bloques [''DNI 12345678'', ''xx'']) =
     Datos \<lparr>dni = Some ''12345678'', apellido_paterno = None, apellido_materno = None,
          nombres = None, fecha_nacimiento = None, fecha_nacimiento_iso = None,
          edad = None, sexo = None, sexo_completo = None, nombre_completo = None\<rparr>"
proof -
  have a: "parsear_dni hoy_ejemplo (join_lines [''PRIMER APELLIDO'', ''PEREZ'', ''PRE NOMBRES'', ''JUAN'']) =
     Inr \<lparr>dni = None, apellido_paterno = Some ''PEREZ'', apellido_materno = None,
          nombres = Some ''JUAN'', fecha_nacimiento = None, fecha_nacimiento_iso = None,
          edad = None, sexo = None, sexo_completo = None,
          nombre_completo = Some ''JUAN PEREZ''\<rparr>"
    by code_simp
  have b: "parsear_dni hoy_ejemplo (join_lines [''DNI 12345678'', ''xx'']) =
     Inr \<lparr>dni = Some ''12345678'', apellido_paterno = None, apellido_materno = None,
          nombres = None, fecha_nacimiento = None, fecha_nacimiento_iso = None,
          edad = None, sexo = None, sexo_completo = None, nombre_completo = None\<rparr>"
    by code_simp
  note t = sin_dni_error[of hoy_ejemplo "[]"]
  from t a have c: "extraer_datos_dni hoy_ejemplo
      (Bloques [''PRIMER APELLIDO'', ''PEREZ'', ''PRE NOMBRES'', ''JUAN'']) =
     Error ''No se pudo detectar el DNI en la imagen''"
    by simp
  from t b have d: "extraer_datos_dni hoy_ejemplo (Bloques [''DNI 12345678'', ''xx'']) =
     Datos \<lparr>dni = Some ''12345678'', apellido_paterno = None, apellido_materno = None,
          nombres = None, fecha_nacimiento = None, fecha_nacimiento_iso = None,
          edad = None, sexo = None, sexo_completo = None, nombre_completo = None\<rparr>"
    by simp
  from a b c d show ?thesis by simp
qed


section \<open>The full name\<close>

text \<open>
  C8. The parser returns a record for every text, and in that record the full name is
  present exactly when the given names and the paternal surname are both present. With the maternal surname present too
  it is the given names, the paternal and the maternal surname joined by single spaces;
  without it, the given names and the paternal surname. So it is never made of surnames
  alone.
\<close>

theorem nombre_completo_armado:
  "\<exists>d. parsear_dni hoy texto = Inr d \<and>
     (nombre_completo d \<noteq> None \<longleftrightarrow> nombres d \<noteq> None \<and> apellido_paterno d \<noteq> None) \<and>
     (\<forall>n p m. nombres d = Some n \<and> apellido_paterno d = Some p \<and> apellido_materno d = Some m \<longrightarrow>
        nombre_completo d = Some (n @ '' '' @ p @ '' '' @ m)) \<and>
     (\<forall>n p. nombres d = Some n \<and> apellido_paterno d = Some p \<and> apellido_materno d = None \<longrightarrow>
        nombre_completo d = Some (n @ '' '' @ p))"
proof -
  obtain d where d: "parsear_dni hoy texto = Inr d"
    using parsear_dni_total by blast
  then have "(nombre_completo d \<noteq> None \<longleftrightarrow> nombres d \<noteq> None \<and> apellido_paterno d \<noteq> None) \<and>
     (\<forall>n p m. nombres d = Some n \<and> apellido_paterno d = Some p \<and> apellido_materno d = Some m \<longrightarrow>
        nombre_completo d = Some (n @ '' '' @ p @ '' '' @ m)) \<and>
     (\<forall>n p. nombres d = Some n \<and> apellido_paterno d = Some p \<and> apellido_materno d = None \<longrightarrow>
        nombre_completo d = Some (n @ '' '' @ p))"
    by (auto simp: parsear_dni_def Let_def armar_nombre_completo_def split: sum.splits option.splits)
  with d show ?thesis by blast
qed

theorem nombre_completo_armado_witness:
  "\<exists>d. parsear_dni hoy_ejemplo (''PRIMER APELLIDO'' @ [CHR 0x0A] @ ''PEREZ'' @ [CHR 0x0A] @
       ''PRE NOMBRES'' @ [CHR 0x0A] @ ''JUAN'') = Inr d \<and>
     nombres d = Some ''JUAN'' \<and> apellido_paterno d = Some ''PEREZ'' \<and> apellido_materno d = None \<and>
     nombre_completo d = Some (''JUAN'' @ '' '' @ ''PEREZ'')"
proof -
  have a: "parsear_dni hoy_ejemplo (''PRIMER APELLIDO'' @ [CHR 0x0A] @ ''PEREZ'' @ [CHR 0x0A] @
       ''PRE NOMBRES'' @ [CHR 0x0A] @ ''JUAN'') =
     Inr \<lparr>dni = None, apellido_paterno = Some ''PEREZ'', apellido_materno = None,
          nombres = Some ''JUAN'', fecha_nacimiento = None, fecha_nacimiento_iso = None,
          edad = None, sexo = None, sexo_completo = None,
          nombre_completo = Some ''JUAN PEREZ''\<rparr>"
    by code_simp
  from nombre_completo_armado[of hoy_ejemplo "''PRIMER APELLIDO'' @ [CHR 0x0A] @ ''PEREZ'' @ [CHR 0x0A] @
       ''PRE NOMBRES'' @ [CHR 0x0A] @ ''JUAN''"]
  show ?thesis
    unfolding a by simp
qed

end
